theory Spec2Isabelle
  imports Complex_Main "HOL-Library.Product_Lexorder" "HOL-Library.List_Lexorder"
    "HOL-Library.Char_ord"
begin

section \<open>Strings as the Python code uses them\<close>

text \<open>
  Codes are ASCII strings (the OCR whitelist is A-Z and 0-9), so a Python \<open>str\<close> is a
  \<^typ>\<open>string\<close> whose characters are ASCII code points. \<open>str.upper\<close>,
  \<open>str.strip\<close>, \<open>str.split\<close> and the regular expression class \<open>\s\<close> are modelled
  on that alphabet: the ASCII characters for which \<open>str.isspace\<close> holds are
  TAB, LF, VT, FF, CR, FS, GS, RS, US and the blank.
\<close>

definition py_isspace :: "char \<Rightarrow> bool" where
  "py_isspace c = (c \<in> set [CHR 0x09, CHR 0x0A, CHR 0x0B, CHR 0x0C, CHR 0x0D,
                             CHR 0x1C, CHR 0x1D, CHR 0x1E, CHR 0x1F, CHR '' ''])"

definition upper_char :: "char \<Rightarrow> char" where
  "upper_char c =
     (case map_of (zip ''abcdefghijklmnopqrstuvwxyz'' ''ABCDEFGHIJKLMNOPQRSTUVWXYZ'') c of
        Some u \<Rightarrow> u
      | None \<Rightarrow> c)"

definition py_upper :: "string \<Rightarrow> string" where
  "py_upper s = map upper_char s"

definition py_strip :: "string \<Rightarrow> string" where
  "py_strip s = rev (dropWhile py_isspace (rev (dropWhile py_isspace s)))"

text \<open>\<open>re.sub(r'[.,:;)]+$', '', s)\<close>: the run of punctuation that ends the string is
  removed; \<open>$\<close> also matches just before a final line feed, which then stays.\<close>

definition is_trailing_punct :: "char \<Rightarrow> bool" where
  "is_trailing_punct c = (c \<in> set ''.,:;)'')"

definition strip_trailing_punct :: "string \<Rightarrow> string" where
  "strip_trailing_punct s =
     (if s \<noteq> [] \<and> last s = CHR 0x0A \<and> butlast s \<noteq> [] \<and> is_trailing_punct (last (butlast s))
      then rev (dropWhile is_trailing_punct (rev (butlast s))) @ [CHR 0x0A]
      else rev (dropWhile is_trailing_punct (rev s)))"

text \<open>Python's slice \<open>xs[lo:hi]\<close> with integer bounds: a negative bound counts from the
  end, and every bound is clipped to the list.\<close>

definition slice_bound :: "nat \<Rightarrow> int \<Rightarrow> nat" where
  "slice_bound n i = (if i < 0 then nat (max (i + int n) 0) else min (nat i) n)"

definition py_slice :: "'a list \<Rightarrow> int \<Rightarrow> int \<Rightarrow> 'a list" where
  "py_slice xs lo hi =
     (let l = slice_bound (length xs) lo; h = slice_bound (length xs) hi
      in take (h - l) (drop l xs))"

text \<open>\<open>list.index\<close> raises \<open>ValueError\<close> when the element is absent: \<open>None\<close> here.\<close>

fun py_index :: "'a list \<Rightarrow> 'a \<Rightarrow> nat option" where
  "py_index [] y = None"
| "py_index (x # xs) y = (if x = y then Some 0 else map_option Suc (py_index xs y))"

section \<open>core.py: counting corrections\<close>

definition count_corrections_needed :: "string \<Rightarrow> string \<Rightarrow> int" where
  "count_corrections_needed original corrected =
     (if original = corrected then 0
      else
        let original' = py_strip (py_upper original);
            corrected' = py_strip (py_upper corrected);
            length_diff = abs (int (length original') - int (length corrected'));
            min_length = min (length original') (length corrected')
        in fold (\<lambda>i corrections. if original' ! i \<noteq> corrected' ! i then corrections + 1
                                   else corrections)
             [0..<min_length] length_diff)"

section \<open>core.py: sequence context\<close>

record code_context =
  before :: "string list"
  after :: "string list"

definition get_validated_context_codes :: "string list \<Rightarrow> string \<Rightarrow> int \<Rightarrow> code_context" where
  "get_validated_context_codes all_validated_codes target_code context_size =
     (case py_index all_validated_codes target_code of
        None \<Rightarrow> \<lparr>before = [], after = []\<rparr>
      | Some index \<Rightarrow>
          \<lparr>before = py_slice all_validated_codes (max 0 (int index - context_size)) (int index),
           after = py_slice all_validated_codes (int index + 1) (int index + 1 + context_size)\<rparr>)"

section \<open>core.py: the confidence scorer\<close>

text \<open>Probabilities are Python floats in the source; here they are exact rationals, so
  every constant is the decimal fraction the source writes.\<close>

record context_details =
  before_matches :: nat
  after_matches :: nat
  before_total :: nat
  after_total :: nat

definition context_weights :: "int \<Rightarrow> int \<Rightarrow> rat list \<times> rat list" where
  "context_weights corrections_pdf1 corrections_pdf2 =
     (let total_corrections = corrections_pdf1 + corrections_pdf2
      in if total_corrections = 0 then ([0.10, 0.05, 0.02], [0.08, 0.05, 0.02])
         else if total_corrections = 2 \<and> corrections_pdf1 = 1 \<and> corrections_pdf2 = 1
         then ([0.10, 0.07, 0.03], [0.10, 0.07, 0.03])
         else ([0.08, 0.05, 0.02], [0.08, 0.05, 0.02]))"

definition check_context_before ::
  "rat list \<Rightarrow> string list \<Rightarrow> string list \<Rightarrow> nat \<Rightarrow> rat \<times> nat \<Rightarrow> rat \<times> nat" where
  "check_context_before before_weights before_pdf1 before_pdf2 n acc =
     fold (\<lambda>i (bonus, m).
             if before_pdf1 ! (length before_pdf1 - (i + 1)) = before_pdf2 ! (length before_pdf2 - (i + 1))
             then (bonus + before_weights ! i, m + 1) else (bonus, m))
       [0..<n] acc"

definition check_context_after ::
  "rat list \<Rightarrow> string list \<Rightarrow> string list \<Rightarrow> nat \<Rightarrow> rat \<times> nat \<Rightarrow> rat \<times> nat" where
  "check_context_after after_weights after_pdf1 after_pdf2 n acc =
     fold (\<lambda>i (bonus, m).
             if after_pdf1 ! i = after_pdf2 ! i
             then (bonus + after_weights ! i, m + 1) else (bonus, m))
       [0..<n] acc"

definition calculate_precise_probability ::
  "string \<Rightarrow> int \<Rightarrow> int \<Rightarrow> code_context \<Rightarrow> code_context \<Rightarrow> bool \<Rightarrow> rat \<times> context_details" where
  "calculate_precise_probability code corrections_pdf1 corrections_pdf2 context_pdf1 context_pdf2
       is_in_both =
     (let probability = (if is_in_both then 0.80 else 0.40);
          total_corrections = corrections_pdf1 + corrections_pdf2;
          probability = probability - of_int total_corrections * 0.10;
          probability = max 0 probability
      in if is_in_both then
           let (before_weights, after_weights) = context_weights corrections_pdf1 corrections_pdf2;
               before_pdf1 = before context_pdf1;
               before_pdf2 = before context_pdf2;
               b_total = min (min (length before_pdf1) (length before_pdf2)) 3;
               (context_bonus, b_matches) =
                 check_context_before before_weights before_pdf1 before_pdf2 b_total (0, 0);
               after_pdf1 = after context_pdf1;
               after_pdf2 = after context_pdf2;
               a_total = min (min (length after_pdf1) (length after_pdf2)) 3;
               (context_bonus, a_matches) =
                 check_context_after after_weights after_pdf1 after_pdf2 a_total (context_bonus, 0);
               probability = probability + context_bonus
           in (max 0 (min 1 probability),
               \<lparr>before_matches = b_matches, after_matches = a_matches,
                before_total = b_total, after_total = a_total\<rparr>)
         else (max 0 (min 1 probability),
               \<lparr>before_matches = 0, after_matches = 0, before_total = 0, after_total = 0\<rparr>))"

text \<open>The scorer as the specification words it (section 4.5), to be compared with
  \<open>calculate_precise_probability\<close>.\<close>

definition agreement_bonus :: "rat list \<Rightarrow> string list \<Rightarrow> string list \<Rightarrow> rat" where
  "agreement_bonus weights codes1 codes2 =
     sum_list (map (\<lambda>((c1, c2), w). if c1 = c2 then w else 0) (zip (zip codes1 codes2) weights))"

definition spec_base :: "int \<Rightarrow> int \<Rightarrow> bool \<Rightarrow> rat" where
  "spec_base c1 c2 in_both =
     (if in_both then (if c1 + c2 = 0 then 0.80 else max 0 (0.80 - 0.10 * of_int (c1 + c2)))
      else max 0 (0.40 - 0.10 * of_int (c1 + c2)))"

definition spec_weights :: "int \<Rightarrow> int \<Rightarrow> rat list \<times> rat list" where
  "spec_weights c1 c2 =
     (if c1 + c2 = 0 then ([0.10, 0.05, 0.02], [0.08, 0.05, 0.02])
      else if c1 = 1 \<and> c2 = 1 then ([0.10, 0.07, 0.03], [0.10, 0.07, 0.03])
      else ([0.08, 0.05, 0.02], [0.08, 0.05, 0.02]))"

definition spec_bonus :: "int \<Rightarrow> int \<Rightarrow> code_context \<Rightarrow> code_context \<Rightarrow> bool \<Rightarrow> rat" where
  "spec_bonus c1 c2 context1 context2 in_both =
     (if in_both
      then agreement_bonus (fst (spec_weights c1 c2)) (rev (before context1)) (rev (before context2))
         + agreement_bonus (snd (spec_weights c1 c2)) (after context1) (after context2)
      else 0)"

definition spec_probability :: "int \<Rightarrow> int \<Rightarrow> code_context \<Rightarrow> code_context \<Rightarrow> bool \<Rightarrow> rat" where
  "spec_probability c1 c2 context1 context2 in_both =
     max 0 (min 1 (spec_base c1 c2 in_both + spec_bonus c1 c2 context1 context2 in_both))"

section \<open>core.py: the variant generator\<close>

text \<open>
  \<open>get_variants_for_position\<close> returns \<open>list(set(variants))\<close>. The iteration order of
  a Python set of strings follows the string hashes, which CPython randomises for every
  process; so the order is a parameter \<open>set_order\<close> of the model, the function from the
  list put into the set to the list read back. It keeps the elements and drops duplicates.
\<close>

definition valid_set_order :: "(char list \<Rightarrow> char list) \<Rightarrow> bool" where
  "valid_set_order set_order = (\<forall>xs. set (set_order xs) = set xs \<and> distinct (set_order xs))"

definition ocr_substitutions :: "char \<rightharpoonup> char list" where
  "ocr_substitutions =
     map_of [(CHR ''0'', ''O''), (CHR ''O'', ''0''), (CHR ''8'', ''B''), (CHR ''B'', ''8''),
             (CHR ''I'', ''1L''), (CHR ''1'', ''IL''), (CHR ''L'', ''I1''),
             (CHR ''5'', ''S''), (CHR ''S'', ''5''), (CHR ''6'', ''G''), (CHR ''G'', ''6''),
             (CHR ''2'', ''Z''), (CHR ''Z'', ''2'')]"

definition get_variants_for_position :: "(char list \<Rightarrow> char list) \<Rightarrow> char \<Rightarrow> char list" where
  "get_variants_for_position set_order c =
     set_order (case ocr_substitutions c of None \<Rightarrow> [c] | Some subs \<Rightarrow> c # subs)"

text \<open>\<open>itertools.product\<close>: the last position varies fastest.\<close>

fun itertools_product :: "'a list list \<Rightarrow> 'a list list" where
  "itertools_product [] = [[]]"
| "itertools_product (xs # xss) = concat (map (\<lambda>x. map ((#) x) (itertools_product xss)) xs)"

definition count_changes :: "string \<Rightarrow> string \<Rightarrow> nat" where
  "count_changes code variant =
     length (filter (\<lambda>(i, ch). i < length code \<and> ch \<noteq> code ! i) (enumerate 0 variant))"

text \<open>\<open>list.sort\<close> is stable, as \<^const>\<open>sort_key\<close> is: variants with the same number of
  changes stay in the order of the product.\<close>

definition generate_all_ocr_variants :: "(char list \<Rightarrow> char list) \<Rightarrow> string \<Rightarrow> string list" where
  "generate_all_ocr_variants set_order code =
     (let position_variants = map (get_variants_for_position set_order) code;
          all_variants = filter (\<lambda>variant. variant \<noteq> code) (itertools_product position_variants)
      in code # sort_key (count_changes code) all_variants)"

section \<open>core.py: the resolver\<close>

text \<open>The master list is a Python set that is only tested for membership and emptiness
  (\<open>None\<close> behaves as the empty set); the first loop that finds a variant in it returns.\<close>

definition clean_code_advanced :: "(char list \<Rightarrow> char list) \<Rightarrow> string \<Rightarrow> string set \<Rightarrow> string" where
  "clean_code_advanced set_order code master_codes_set =
     (if code = [] then py_upper (py_strip code)
      else
        let cleaned = py_upper (strip_trailing_punct (py_strip code))
        in if master_codes_set = {} then cleaned
           else
             case find (\<lambda>variant. variant \<in> master_codes_set)
                    (generate_all_ocr_variants set_order cleaned) of
               Some variant \<Rightarrow> variant
             | None \<Rightarrow>
                 if length cleaned > 3 \<and> length cleaned > 1 \<and> cleaned ! 1 \<in> set ''0O'' then
                   let shortened = cleaned ! 0 # drop 2 cleaned
                   in if length shortened \<ge> 3 then
                        (case find (\<lambda>variant. variant \<in> master_codes_set)
                                (generate_all_ocr_variants set_order shortened) of
                           Some variant \<Rightarrow> variant
                         | None \<Rightarrow> cleaned)
                      else cleaned
                 else cleaned)"

text \<open>The basic cleaning of \<open>clean_code_advanced\<close> on its own: the normalised form of a
  candidate.\<close>

definition normalize :: "string \<Rightarrow> string" where
  "normalize code = py_upper (strip_trailing_punct (py_strip code))"

section \<open>core.py: validation of the raw codes in extract_codes\<close>

text \<open>The descriptions written by \<open>analyze_corrections\<close> contain the arrow U+2192; the
  description strings hold it as its three UTF-8 bytes.\<close>

definition arrow :: string where
  "arrow = [CHR 0xE2, CHR 0x86, CHR 0x92]"

fun py_join :: "string \<Rightarrow> string list \<Rightarrow> string" where
  "py_join sep [] = []"
| "py_join sep [x] = x"
| "py_join sep (x # y # ys) = x @ sep @ py_join sep (y # ys)"

definition named_substitutions :: "(char \<times> char) list" where
  "named_substitutions =
     [(CHR ''8'', CHR ''B''), (CHR ''B'', CHR ''8''), (CHR ''I'', CHR ''1''), (CHR ''1'', CHR ''I''),
      (CHR ''0'', CHR ''O''), (CHR ''O'', CHR ''0''), (CHR ''5'', CHR ''S''), (CHR ''S'', CHR ''5''),
      (CHR ''6'', CHR ''G''), (CHR ''G'', CHR ''6''), (CHR ''2'', CHR ''Z''), (CHR ''Z'', CHR ''2'')]"

definition analyze_corrections :: "string \<Rightarrow> string \<Rightarrow> string option" where
  "analyze_corrections original corrected =
     (if original = corrected then None
      else if length original > length corrected \<and> length original > 1
              \<and> original ! 1 \<in> set ''0O'' \<and> original ! 0 # drop 2 original = corrected
      then Some ''0 an 2. Stelle entfernt''
      else
        let correction_details =
              concat (map (\<lambda>(orig_char, corr_char).
                             if orig_char \<noteq> corr_char \<and> (orig_char, corr_char) \<in> set named_substitutions
                             then [[orig_char] @ arrow @ [corr_char]] else [])
                        (zip original corrected));
            correction_details =
              (if CHR '' '' \<in> set original \<and> CHR '' '' \<notin> set corrected
               then correction_details @ [''Leerzeichen entfernt''] else correction_details)
        in Some (if correction_details \<noteq> [] then py_join '', '' correction_details
                 else ''OCR-Korrektur''))"

text \<open>An entry of \<open>correction_info\<close> (the constant \<open>method\<close> text is left out).\<close>

record corr_info =
  ci_original :: string
  ci_corrected :: string
  ci_page :: int
  ci_position :: nat
  ci_corrections_applied :: "string list"
  ci_corrections_count :: nat

text \<open>Python's truth value of \<open>found_match\<close>, which is \<open>None\<close> or a string.\<close>

definition truthy :: "string option \<Rightarrow> bool" where
  "truthy found_match = (case found_match of None \<Rightarrow> False | Some m \<Rightarrow> m \<noteq> [])"

text \<open>The loop over the variants of \<open>current_code\<close>, which stops at the first one in the
  master list and documents the correction.\<close>

definition search_variants ::
  "(char list \<Rightarrow> char list) \<Rightarrow> string set \<Rightarrow> string \<Rightarrow> string option \<Rightarrow> string list
     \<Rightarrow> string option \<times> string list" where
  "search_variants set_order master_codes_set current_code found_match corrections_applied =
     (case find (\<lambda>variant. variant \<in> master_codes_set)
             (generate_all_ocr_variants set_order current_code) of
        None \<Rightarrow> (found_match, corrections_applied)
      | Some variant \<Rightarrow>
          (Some variant,
           if variant \<noteq> current_code then
             (case analyze_corrections current_code variant of
                Some details \<Rightarrow>
                  if details \<noteq> [] then corrections_applied @ [details] else corrections_applied
              | None \<Rightarrow> corrections_applied)
           else corrections_applied))"

text \<open>The body of the loop over \<open>raw_codes\<close> in \<open>extract_codes\<close> and the loop itself;
  \<open>n_positions\<close> is the length of \<open>raw_codes_with_positions\<close>.\<close>

definition validate_raw_code ::
  "(char list \<Rightarrow> char list) \<Rightarrow> string set \<Rightarrow> nat \<Rightarrow> nat \<Rightarrow> string
     \<Rightarrow> string set \<Rightarrow> corr_info list \<Rightarrow> string set \<times> corr_info list" where
  "validate_raw_code set_order master_codes_set n_positions i code
       validated_codes_from_pdf correction_info =
     (let original_code = py_strip (py_upper code);
          basic_cleaned = py_upper (strip_trailing_punct (py_strip original_code))
      in if basic_cleaned \<in> master_codes_set
         then (insert basic_cleaned validated_codes_from_pdf, correction_info)
         else
           let current_code = basic_cleaned;
               (found_match, corrections_applied) =
                 search_variants set_order master_codes_set current_code None [];
               (found_match, corrections_applied) =
                 (if \<not> truthy found_match \<and> length current_code > 3 \<and> length current_code > 1
                     \<and> current_code ! 1 \<in> set ''0O''
                  then
                    let shortened = current_code ! 0 # drop 2 current_code
                    in if length shortened \<ge> 3
                       then search_variants set_order master_codes_set shortened found_match
                              (corrections_applied @ [''0 an 2. Stelle entfernt''])
                       else (found_match, corrections_applied)
                  else (found_match, corrections_applied))
           in if truthy found_match then
                (insert (the found_match) validated_codes_from_pdf,
                 if corrections_applied \<noteq> [] then
                   correction_info @
                     [\<lparr>ci_original = original_code, ci_corrected = the found_match,
                       ci_page = (if i < n_positions then int i div 10 + 1 else 1),
                       ci_position = i,
                       ci_corrections_applied = corrections_applied,
                       ci_corrections_count = length corrections_applied\<rparr>]
                 else correction_info)
              else (validated_codes_from_pdf, correction_info))"

definition validate_raw_codes ::
  "(char list \<Rightarrow> char list) \<Rightarrow> string set \<Rightarrow> string list \<Rightarrow> string set \<times> corr_info list" where
  "validate_raw_codes set_order master_codes_set raw_codes =
     fold (\<lambda>(i, code) (validated_codes_from_pdf, correction_info).
             validate_raw_code set_order master_codes_set (length raw_codes) i code
               validated_codes_from_pdf correction_info)
       (enumerate 0 raw_codes) ({}, [])"

section \<open>ocr_correction.py: OCRCorrector\<close>

definition substitutions :: "char \<rightharpoonup> char list" where
  "substitutions =
     map_of [(CHR ''B'', ''8''), (CHR ''8'', ''B''), (CHR ''O'', ''0''), (CHR ''0'', ''O''),
             (CHR ''I'', ''1l''), (CHR ''1'', ''Il''), (CHR ''l'', ''I1''),
             (CHR ''S'', ''5Z''), (CHR ''5'', ''SZ''), (CHR ''Z'', ''S52''), (CHR ''2'', ''Z''),
             (CHR ''G'', ''6''), (CHR ''6'', ''G''), (CHR ''E'', ''F''), (CHR ''F'', ''E'')]"

definition clean_whitespace :: "string \<Rightarrow> string" where
  "clean_whitespace code = filter (\<lambda>c. \<not> py_isspace c) (py_strip code)"

definition apply_zero_rule :: "string \<Rightarrow> string" where
  "apply_zero_rule code =
     (if length code > 3 \<and> length code > 1 \<and> code ! 1 = CHR ''0'' then
        let potential_cleaned = code ! 0 # drop 2 code
        in if length potential_cleaned \<ge> 3 then potential_cleaned else code
      else code)"

definition generate_simple_variants :: "string \<Rightarrow> string list" where
  "generate_simple_variants code =
     (let cleaned_code = py_upper (clean_whitespace code)
      in fold (\<lambda>(i, replacement) variants.
                 let variant_code = cleaned_code[i := replacement];
                     variant_with_zero_rule = apply_zero_rule variant_code;
                     variants = (if variant_code \<notin> set variants then variants @ [variant_code]
                                 else variants)
                 in if variant_with_zero_rule \<notin> set variants
                       \<and> variant_with_zero_rule \<noteq> variant_code
                    then variants @ [variant_with_zero_rule] else variants)
           (concat (map (\<lambda>(i, char). case substitutions char of
                                         None \<Rightarrow> []
                                       | Some replacements \<Rightarrow> map (Pair i) replacements)
                      (enumerate 0 cleaned_code)))
           [])"

definition apply_combination :: "(nat \<times> char) list \<Rightarrow> string \<Rightarrow> string" where
  "apply_combination combination cleaned_code =
     fold (\<lambda>(pos, new_char) variant.
             if variant ! pos \<noteq> new_char then variant[pos := new_char] else variant)
       combination cleaned_code"

definition generate_variants :: "string \<Rightarrow> string set" where
  "generate_variants code =
     (let cleaned_code = py_upper (clean_whitespace code);
          variants = {cleaned_code};
          positions_to_substitute =
            concat (map (\<lambda>(i, char). case substitutions char of
                                        None \<Rightarrow> []
                                      | Some replacements \<Rightarrow> [(i, char, replacements)])
                     (enumerate 0 cleaned_code))
      in if positions_to_substitute \<noteq> [] then
           let substitution_combinations =
                 map (\<lambda>(pos, original_char, replacements).
                        (pos, original_char) # map (\<lambda>repl. (pos, repl)) replacements)
                   positions_to_substitute
           in fold (\<lambda>combination variants.
                      let variant_code = apply_combination combination cleaned_code;
                          variant_with_zero_rule = apply_zero_rule variant_code
                      in insert variant_with_zero_rule (insert variant_code variants))
                (itertools_product substitution_combinations) variants
         else variants)"

section \<open>code_filters.py\<close>

definition is_control_code :: "string \<Rightarrow> bool" where
  "is_control_code code = (code \<noteq> [] \<and> take 1 (py_upper code) = ''I'')"

record code_categories =
  normal :: "string set"
  control :: "string set"

definition categorize_codes_by_type :: "string set \<Rightarrow> code_categories" where
  "categorize_codes_by_type codes_set =
     \<lparr>normal = Set.filter (\<lambda>code. \<not> is_control_code code) codes_set,
      control = Set.filter is_control_code codes_set\<rparr>"

section \<open>core.py: the reconciliation engine\<close>

text \<open>
  The result of \<open>compare_codes_with_correction\<close>. Of a correction entry the model keeps
  the original, the corrected code, the probability and the correction type; the page
  label, the comment text and the (constant) factor list and legend are presentation and
  are left out, as is everything that is only printed.
\<close>

record membership =
  in_both :: "string set"
  only_in_pdf1 :: "string set"
  only_in_pdf2 :: "string set"

record comparison_sets = membership +
  normal_sets :: membership
  control_sets :: membership

record correction =
  original :: string
  corrected :: string
  probability :: rat
  correction_type :: string

record comparison_result =
  original_sets :: comparison_sets
  corrected_sets :: comparison_sets
  corrections :: "correction list"

record combo =
  combined :: string
  parts :: "string list"
  line :: nat
  combo_substitutions :: "string list"
  penalty :: rat

text \<open>\<open>str.split()\<close> without argument: the maximal runs of non-whitespace characters.\<close>

fun split_acc :: "string \<Rightarrow> string \<Rightarrow> string list" where
  "split_acc cur [] = (if cur = [] then [] else [cur])"
| "split_acc cur (c # cs) =
     (if py_isspace c then (if cur = [] then split_acc [] cs else cur # split_acc [] cs)
      else split_acc (cur @ [c]) cs)"

definition py_split :: "string \<Rightarrow> string list" where
  "py_split s = split_acc [] s"

text \<open>\<open>a in b\<close> on strings.\<close>

definition is_substring :: "string \<Rightarrow> string \<Rightarrow> bool" where
  "is_substring a b = list_ex (\<lambda>i. take (length a) (drop i b) = a) [0..<Suc (length b)]"

text \<open>The set algebra of \<open>compare_codes_with_correction\<close> (lines 772-791, and again lines
  1143-1159 on the corrected codes of document 1): per category, then combined.\<close>

definition compare_sets :: "string set \<Rightarrow> string set \<Rightarrow> comparison_sets" where
  "compare_sets codes1 codes2 =
     (let categories1 = categorize_codes_by_type codes1;
          categories2 = categorize_codes_by_type codes2;
          normal_in_both = normal categories1 \<inter> normal categories2;
          normal_only_in_pdf1 = normal categories1 - normal categories2;
          normal_only_in_pdf2 = normal categories2 - normal categories1;
          control_in_both = control categories1 \<inter> control categories2;
          control_only_in_pdf1 = control categories1 - control categories2;
          control_only_in_pdf2 = control categories2 - control categories1
      in \<lparr>in_both = normal_in_both \<union> control_in_both,
          only_in_pdf1 = normal_only_in_pdf1 \<union> control_only_in_pdf1,
          only_in_pdf2 = normal_only_in_pdf2 \<union> control_only_in_pdf2,
          normal_sets = \<lparr>in_both = normal_in_both, only_in_pdf1 = normal_only_in_pdf1,
                         only_in_pdf2 = normal_only_in_pdf2\<rparr>,
          control_sets = \<lparr>in_both = control_in_both, only_in_pdf1 = control_only_in_pdf1,
                          only_in_pdf2 = control_only_in_pdf2\<rparr>\<rparr>)"

text \<open>\<open>all_validated_pdf1\<close> and \<open>all_validated_pdf2\<close> (lines 810-814): the resolved
  codes in the order of page and position.\<close>

definition validated_sequence ::
  "(char list \<Rightarrow> char list) \<Rightarrow> string set \<Rightarrow> (string \<times> int \<times> int) list \<Rightarrow> string list" where
  "validated_sequence set_order master_codes_set raw_codes =
     filter (\<lambda>code. code \<in> master_codes_set)
       (map (\<lambda>(code, page, pos). clean_code_advanced set_order code master_codes_set)
          (sort_key (\<lambda>(code, page, pos). (page, pos)) raw_codes))"

text \<open>The correction passes thread the pair \<open>(all_corrections, corrected_codes_pdf1)\<close>.
  First the resolver-sourced corrections of both documents (lines 819-890).\<close>

definition extended_corrections_pdf1 ::
  "string list \<Rightarrow> string list \<Rightarrow> corr_info list \<Rightarrow> correction list \<times> string set
     \<Rightarrow> correction list \<times> string set" where
  "extended_corrections_pdf1 all_validated_pdf1 all_validated_pdf2 correction_info_pdf1 state =
     fold (\<lambda>corr_info (all_corrections, corrected_codes_pdf1).
             let context_pdf1 = get_validated_context_codes all_validated_pdf1 (ci_corrected corr_info) 3;
                 context_pdf2 = get_validated_context_codes all_validated_pdf2 (ci_corrected corr_info) 3;
                 corrections_count =
                   count_corrections_needed (ci_original corr_info) (ci_corrected corr_info);
                 (prob, details) =
                   calculate_precise_probability (ci_corrected corr_info) corrections_count 0
                     context_pdf1 context_pdf2 True
             in (all_corrections @
                   [\<lparr>original = ci_original corr_info, corrected = ci_corrected corr_info,
                     probability = prob, correction_type = ''Erweiterte OCR-Korrektur''\<rparr>],
                 insert (ci_corrected corr_info) corrected_codes_pdf1))
       correction_info_pdf1 state"

definition extended_corrections_pdf2 ::
  "string list \<Rightarrow> string list \<Rightarrow> corr_info list \<Rightarrow> correction list \<times> string set
     \<Rightarrow> correction list \<times> string set" where
  "extended_corrections_pdf2 all_validated_pdf1 all_validated_pdf2 correction_info_pdf2 state =
     fold (\<lambda>corr_info (all_corrections, corrected_codes_pdf1).
             let context_pdf1 = get_validated_context_codes all_validated_pdf1 (ci_corrected corr_info) 3;
                 context_pdf2 = get_validated_context_codes all_validated_pdf2 (ci_corrected corr_info) 3;
                 corrections_count =
                   count_corrections_needed (ci_original corr_info) (ci_corrected corr_info);
                 (prob, details) =
                   calculate_precise_probability (ci_corrected corr_info) 0 corrections_count
                     context_pdf1 context_pdf2 True
             in (all_corrections @
                   [\<lparr>original = ci_original corr_info, corrected = ci_corrected corr_info,
                     probability = prob, correction_type = ''Erweiterte OCR-Korrektur''\<rparr>],
                 corrected_codes_pdf1))
       correction_info_pdf2 state"

text \<open>The fragment-merge candidates (lines 895-969): groups of two or three adjacent tokens
  of a line or, without text lines, pairs of adjacent raw codes.\<close>

definition token_groups :: "string list \<Rightarrow> string list list" where
  "token_groups tokens =
     concat (map (\<lambda>start_idx.
                    map (\<lambda>end_idx. take (end_idx - start_idx) (drop start_idx tokens))
                      [start_idx + 2..<min (start_idx + 4) (length tokens + 1)])
               [0..<length tokens])"

definition combos_for_group :: "string set \<Rightarrow> nat \<Rightarrow> string list \<Rightarrow> combo list" where
  "combos_for_group master_codes_set line_idx token_group =
     (let base_combined = clean_whitespace (concat token_group)
      in if 3 \<le> length base_combined \<and> length base_combined \<le> 7 then
           let is_relevant =
                 (\<exists>token\<in>set token_group. \<exists>master_code\<in>master_codes_set.
                     is_substring (py_upper (clean_whitespace token)) master_code)
           in if is_relevant then
                \<lparr>combined = base_combined, parts = token_group, line = line_idx,
                  combo_substitutions = [], penalty = 0\<rparr>
                # concat (map (\<lambda>variant.
                                 if variant \<noteq> base_combined \<and> 3 \<le> length variant \<and> length variant \<le> 7
                                 then [\<lparr>combined = variant, parts = token_group, line = line_idx,
                                         combo_substitutions = [''OCR-Korrektur''], penalty = 0.1\<rparr>]
                                 else [])
                          (take 3 (generate_simple_variants base_combined)))
              else []
         else [])"

definition whitespace_combinations ::
  "string set \<Rightarrow> string list \<Rightarrow> (string \<times> int \<times> int) list \<Rightarrow> combo list" where
  "whitespace_combinations master_codes_set all_text_lines_pdf1 raw_codes_pdf1 =
     (if all_text_lines_pdf1 \<noteq> [] then
        concat (map (\<lambda>(line_idx, line_text).
                       concat (map (combos_for_group master_codes_set line_idx)
                                 (token_groups (py_split line_text))))
                  (enumerate 0 all_text_lines_pdf1))
      else
        let raw_codes_only = map fst raw_codes_pdf1
        in concat (map (\<lambda>i. let combined' = clean_whitespace (raw_codes_only ! i @ raw_codes_only ! (i + 1))
                              in if 3 \<le> length combined' \<and> length combined' \<le> 7
                                 then [\<lparr>combined = combined',
                                         parts = [raw_codes_only ! i, raw_codes_only ! (i + 1)],
                                         line = i, combo_substitutions = [], penalty = 0\<rparr>]
                                 else [])
                     [0..<length raw_codes_only - 1]))"

text \<open>The body of the loop over \<open>whitespace_combinations\<close> (lines 971-1028) and the
  loop.\<close>

definition check_combo ::
  "(char list \<Rightarrow> char list) \<Rightarrow> string set \<Rightarrow> string set \<Rightarrow> string list \<Rightarrow> string list
     \<Rightarrow> combo \<Rightarrow> correction list \<times> string set \<Rightarrow> correction list \<times> string set" where
  "check_combo set_order master_codes_set codes_pdf2 all_validated_pdf1 all_validated_pdf2
       combo state =
     (case state of (all_corrections, corrected_codes_pdf1) \<Rightarrow>
        let combined_cleaned = clean_code_advanced set_order (combined combo) master_codes_set
        in if combined_cleaned \<in> master_codes_set \<and> combined_cleaned \<in> codes_pdf2 then
             let has_substitutions = length (combo_substitutions combo) > 0;
                 context_pdf1_unified =
                   get_validated_context_codes all_validated_pdf1 combined_cleaned 3;
                 context_pdf2_unified =
                   get_validated_context_codes all_validated_pdf2 combined_cleaned 3;
                 corrections_count =
                   count_corrections_needed (py_join '' '' (parts combo)) combined_cleaned;
                 (prob, details) =
                   calculate_precise_probability combined_cleaned corrections_count 0
                     context_pdf1_unified context_pdf2_unified True;
                 prob = (if has_substitutions
                         then max 0.1 (min 1.0 (prob + (0.1 - penalty combo)))
                         else prob)
             in if prob \<ge> 0.6 then
                  (all_corrections @
                     [\<lparr>original = py_join '' '' (parts combo), corrected = combined_cleaned,
                       probability = prob, correction_type = ''Korrekturmatch''\<rparr>],
                   insert combined_cleaned corrected_codes_pdf1)
                else (all_corrections, corrected_codes_pdf1)
           else (all_corrections, corrected_codes_pdf1))"

definition whitespace_corrections ::
  "(char list \<Rightarrow> char list) \<Rightarrow> string set \<Rightarrow> string set \<Rightarrow> string list \<Rightarrow> string list
     \<Rightarrow> combo list \<Rightarrow> correction list \<times> string set \<Rightarrow> correction list \<times> string set" where
  "whitespace_corrections set_order master_codes_set codes_pdf2 all_validated_pdf1
       all_validated_pdf2 combos state =
     fold (check_combo set_order master_codes_set codes_pdf2 all_validated_pdf1 all_validated_pdf2)
       combos state"

text \<open>The cross-document pass (lines 1032-1092): for a code only in document 2, the loop
  over the raw codes of document 1, and the loop over those codes.\<close>

definition corrections_for_target ::
  "(char list \<Rightarrow> char list) \<Rightarrow> string set \<Rightarrow> string list \<Rightarrow> string list
     \<Rightarrow> (string \<times> int \<times> int) list \<Rightarrow> string
     \<Rightarrow> correction list \<times> string set \<Rightarrow> correction list \<times> string set" where
  "corrections_for_target set_order master_codes_set all_validated_pdf1 all_validated_pdf2
       raw_codes_pdf1 target_code state =
     (let possible_variants = generate_variants target_code
      in fold (\<lambda>(raw_code, page_num, position) (all_corrections, corrected_codes_pdf1).
                 let cleaned_raw = clean_code_advanced set_order raw_code master_codes_set
                 in if cleaned_raw \<in> possible_variants \<and> cleaned_raw \<notin> master_codes_set then
                      let context_pdf1_unified =
                            get_validated_context_codes all_validated_pdf1 target_code 3;
                          context_pdf2_unified =
                            get_validated_context_codes all_validated_pdf2 target_code 3;
                          corrections_count = count_corrections_needed cleaned_raw target_code;
                          (prob, details) =
                            calculate_precise_probability target_code corrections_count 0
                              context_pdf1_unified context_pdf2_unified True
                      in if prob \<ge> 0.6 then
                           (all_corrections @
                              [\<lparr>original = cleaned_raw, corrected = target_code,
                                probability = prob, correction_type = ''Korrekturmatch''\<rparr>],
                            insert target_code corrected_codes_pdf1)
                         else (all_corrections, corrected_codes_pdf1)
                    else (all_corrections, corrected_codes_pdf1))
           raw_codes_pdf1 state)"

definition substitution_corrections ::
  "(char list \<Rightarrow> char list) \<Rightarrow> string set \<Rightarrow> string list \<Rightarrow> string list
     \<Rightarrow> (string \<times> int \<times> int) list \<Rightarrow> string list
     \<Rightarrow> correction list \<times> string set \<Rightarrow> correction list \<times> string set" where
  "substitution_corrections set_order master_codes_set all_validated_pdf1 all_validated_pdf2
       raw_codes_pdf1 only_in_pdf2_codes state =
     fold (corrections_for_target set_order master_codes_set all_validated_pdf1 all_validated_pdf2
             raw_codes_pdf1)
       only_in_pdf2_codes state"

text \<open>The classification of the remaining baseline matches (lines 1098-1140).\<close>

definition direct_matches ::
  "string list \<Rightarrow> string list \<Rightarrow> corr_info list \<Rightarrow> string list \<Rightarrow> correction list
     \<Rightarrow> correction list" where
  "direct_matches all_validated_pdf1 all_validated_pdf2 correction_infos in_both_codes all_corrections =
     (let codes_with_corrections =
            ci_corrected ` set (filter (\<lambda>corr_info. ci_corrections_count corr_info > 0) correction_infos)
      in fold (\<lambda>code all_corrections.
                 if code \<in> codes_with_corrections then all_corrections
                 else
                   let context_pdf1_unified = get_validated_context_codes all_validated_pdf1 code 1;
                       context_pdf2_unified = get_validated_context_codes all_validated_pdf2 code 1;
                       (prob, details) =
                         calculate_precise_probability code 0 0
                           context_pdf1_unified context_pdf2_unified True
                   in all_corrections @
                        [\<lparr>original = code, corrected = code, probability = prob,
                          correction_type = ''Direkter Match''\<rparr>])
           in_both_codes all_corrections)"

text \<open>
  \<open>set_iter\<close> is the order in which a \<open>for\<close> loop reads a Python set of codes.
  The contexts computed by \<open>OCRCorrector.get_validated_context_codes\<close> and
  \<open>OCRCorrector.get_context_codes\<close> inside the two correction loops are never read (and
  the only call that can raise is inside a \<open>try\<close> with a bare \<open>except\<close>), so they and
  the lists \<open>pdf1_codes_list\<close> and \<open>pdf2_codes_list\<close> that only feed them are not
  modelled.
\<close>

definition valid_set_iter :: "(string set \<Rightarrow> string list) \<Rightarrow> bool" where
  "valid_set_iter set_iter = (\<forall>S. finite S \<longrightarrow> set (set_iter S) = S \<and> distinct (set_iter S))"

definition corrected_codes_and_corrections ::
  "(char list \<Rightarrow> char list) \<Rightarrow> (string set \<Rightarrow> string list) \<Rightarrow> string set \<Rightarrow> string set
     \<Rightarrow> (string \<times> int \<times> int) list \<Rightarrow> (string \<times> int \<times> int) list \<Rightarrow> string set
     \<Rightarrow> string list \<Rightarrow> corr_info list \<Rightarrow> corr_info list \<Rightarrow> correction list \<times> string set" where
  "corrected_codes_and_corrections set_order set_iter codes_pdf1 codes_pdf2 raw_codes_pdf1
       raw_codes_pdf2 master_codes_set all_text_lines_pdf1 correction_info_pdf1 correction_info_pdf2 =
     (let baseline = compare_sets codes_pdf1 codes_pdf2;
          all_validated_pdf1 = validated_sequence set_order master_codes_set raw_codes_pdf1;
          all_validated_pdf2 = validated_sequence set_order master_codes_set raw_codes_pdf2;
          state = ([], codes_pdf1);
          state = extended_corrections_pdf1 all_validated_pdf1 all_validated_pdf2
                    correction_info_pdf1 state;
          state = extended_corrections_pdf2 all_validated_pdf1 all_validated_pdf2
                    correction_info_pdf2 state;
          state = whitespace_corrections set_order master_codes_set codes_pdf2 all_validated_pdf1
                    all_validated_pdf2
                    (whitespace_combinations master_codes_set all_text_lines_pdf1 raw_codes_pdf1)
                    state;
          state = substitution_corrections set_order master_codes_set all_validated_pdf1
                    all_validated_pdf2 raw_codes_pdf1 (set_iter (only_in_pdf2 baseline)) state
      in (direct_matches all_validated_pdf1 all_validated_pdf2
            (correction_info_pdf1 @ correction_info_pdf2) (set_iter (in_both baseline)) (fst state),
          snd state))"

definition compare_codes_with_correction ::
  "(char list \<Rightarrow> char list) \<Rightarrow> (string set \<Rightarrow> string list) \<Rightarrow> string set \<Rightarrow> string set
     \<Rightarrow> (string \<times> int \<times> int) list \<Rightarrow> (string \<times> int \<times> int) list \<Rightarrow> string set
     \<Rightarrow> string list \<Rightarrow> corr_info list \<Rightarrow> corr_info list \<Rightarrow> comparison_result" where
  "compare_codes_with_correction set_order set_iter codes_pdf1 codes_pdf2 raw_codes_pdf1
       raw_codes_pdf2 master_codes_set all_text_lines_pdf1 correction_info_pdf1 correction_info_pdf2 =
     (let (all_corrections, corrected_codes_pdf1) =
            corrected_codes_and_corrections set_order set_iter codes_pdf1 codes_pdf2 raw_codes_pdf1
              raw_codes_pdf2 master_codes_set all_text_lines_pdf1 correction_info_pdf1
              correction_info_pdf2
      in \<lparr>original_sets = compare_sets codes_pdf1 codes_pdf2,
          corrected_sets = compare_sets corrected_codes_pdf1 codes_pdf2,
          corrections = all_corrections\<rparr>)"

text \<open>main.py, \<open>run_in_thread\<close>: both documents are validated against the master list
  and the results are compared. The inputs are what the OCR collaborator delivers: the raw
  codes with their positions and the text lines of document 1.\<close>

definition run_comparison ::
  "(char list \<Rightarrow> char list) \<Rightarrow> (string set \<Rightarrow> string list) \<Rightarrow> string set
     \<Rightarrow> (string \<times> int \<times> int) list \<Rightarrow> string list \<Rightarrow> (string \<times> int \<times> int) list
     \<Rightarrow> comparison_result" where
  "run_comparison set_order set_iter master_codes_set raw_codes_pdf1 all_text_lines_pdf1 raw_codes_pdf2 =
     (let (codes_pdf1, correction_info_pdf1) =
            validate_raw_codes set_order master_codes_set (map fst raw_codes_pdf1);
          (codes_pdf2, correction_info_pdf2) =
            validate_raw_codes set_order master_codes_set (map fst raw_codes_pdf2)
      in compare_codes_with_correction set_order set_iter codes_pdf1 codes_pdf2 raw_codes_pdf1
           raw_codes_pdf2 master_codes_set all_text_lines_pdf1 correction_info_pdf1
           correction_info_pdf2)"

text \<open>The invariant of the correction passes behind the admission gate: relative to a set
  \<open>base\<close> of codes that need no gate, every Korrekturmatch entry has passed the gate and
  every other code of the corrected set comes from such an entry.\<close>

definition gate_invariant :: "string set \<Rightarrow> correction list \<times> string set \<Rightarrow> bool" where
  "gate_invariant base state =
     ((\<forall>c\<in>set (fst state). correction_type c = ''Korrekturmatch'' \<longrightarrow> 0.6 \<le> probability c)
      \<and> (\<forall>code\<in>snd state.
            code \<in> base
            \<or> (\<exists>c\<in>set (fst state). correction_type c = ''Korrekturmatch'' \<and> corrected c = code
                   \<and> 0.6 \<le> probability c)))"

section \<open>Properties of the correction count\<close>

lemma fold_count_upt:
  "fold (\<lambda>i (c::int). if P i then c + 1 else c) [0..<n] a = a + int (card {i. i < n \<and> P i})"
proof (induction n)
  case 0
  then show ?case by simp
next
  case (Suc n)
  have split: "{i. i < Suc n \<and> P i} = (if P n then insert n {i. i < n \<and> P i} else {i. i < n \<and> P i})"
    by (auto simp: less_Suc_eq)
  have fin: "finite {i. i < n \<and> P i}" by simp
  show ?case
    using Suc fin by (simp add: split)
qed

text \<open>
  C9. After upper-casing and trimming both forms, the correction count is the absolute
  difference of the two lengths plus the number of positions, below the shorter length,
  at which the characters differ; it is 0 when the two normalised forms are equal.
\<close>

theorem count_corrections_needed_formula:
  "count_corrections_needed orig corr =
     abs (int (length (py_strip (py_upper orig))) - int (length (py_strip (py_upper corr))))
     + int (card {i. i < min (length (py_strip (py_upper orig)))
                             (length (py_strip (py_upper corr)))
                    \<and> py_strip (py_upper orig) ! i \<noteq> py_strip (py_upper corr) ! i})
   \<and> (py_strip (py_upper orig) = py_strip (py_upper corr)
        \<longrightarrow> count_corrections_needed orig corr = 0)"
proof -
  let ?a = "py_strip (py_upper orig)" and ?b = "py_strip (py_upper corr)"
  have formula: "count_corrections_needed orig corr =
      abs (int (length ?a) - int (length ?b))
      + int (card {i. i < min (length ?a) (length ?b) \<and> ?a ! i \<noteq> ?b ! i})"
  proof (cases "orig = corr")
    case True
    then show ?thesis by (simp add: count_corrections_needed_def)
  next
    case False
    then show ?thesis
      by (simp add: count_corrections_needed_def Let_def fold_count_upt)
  qed
  moreover have "?a = ?b \<longrightarrow> count_corrections_needed orig corr = 0"
    using formula by simp
  ultimately show ?thesis by blast
qed

theorem count_corrections_needed_formula_witness:
  "count_corrections_needed ''p08 '' ''P0B'' = 1
   \<and> py_strip (py_upper '' p0b'') = py_strip (py_upper ''P0B '')
   \<and> count_corrections_needed '' p0b'' ''P0B '' = 0"
proof -
  have eq: "py_strip (py_upper '' p0b'') = py_strip (py_upper ''P0B '')"
    by (simp add: py_strip_def py_upper_def upper_char_def py_isspace_def)
  have one: "count_corrections_needed ''p08 '' ''P0B'' = 1"
    by (simp add: count_corrections_needed_def py_strip_def py_upper_def upper_char_def
        py_isspace_def upt_rec)
  show ?thesis
    using eq one count_corrections_needed_formula [of "'' p0b''" "''P0B ''"] by blast
qed

section \<open>Properties of the context query\<close>

lemma py_index_None: "py_index xs y = None \<longleftrightarrow> y \<notin> set xs"
  by (induction xs) auto

lemma py_index_first: "y \<notin> set pre \<Longrightarrow> py_index (pre @ y # post) y = Some (length pre)"
  by (induction pre) auto

lemma slice_before:
  assumes "0 \<le> k"
  shows "py_slice (pre @ y # post) (max 0 (int (length pre) - k)) (int (length pre))
         = drop (length pre - nat k) pre"
proof -
  have l: "slice_bound (length (pre @ y # post)) (max 0 (int (length pre) - k)) = length pre - nat k"
    using assms by (auto simp: slice_bound_def max_def min_def)
  have h: "slice_bound (length (pre @ y # post)) (int (length pre)) = length pre"
    by (simp add: slice_bound_def)
  show ?thesis
    unfolding py_slice_def Let_def l h by simp
qed

lemma slice_after:
  assumes "0 \<le> k"
  shows "py_slice (pre @ y # post) (int (length pre) + 1) (int (length pre) + 1 + k) = take (nat k) post"
proof -
  have l: "slice_bound (length (pre @ y # post)) (int (length pre) + 1) = Suc (length pre)"
    by (simp add: slice_bound_def)
  have h: "slice_bound (length (pre @ y # post)) (int (length pre) + 1 + k)
           = min (Suc (length pre) + nat k) (Suc (length pre) + length post)"
    using assms by (auto simp: slice_bound_def min_def)
  have "take (min (Suc (length pre) + nat k) (Suc (length pre) + length post) - Suc (length pre)) post
        = take (nat k) post"
    by (cases "nat k \<le> length post") (simp_all add: min_def)
  then show ?thesis
    unfolding py_slice_def Let_def l h by simp
qed

text \<open>
  C7. For a list of validated codes, a target code and a window size \<open>k \<ge> 0\<close>, the
  context query returns the (up to) \<open>k\<close> codes immediately before and the (up to)
  \<open>k\<close> codes immediately after the first occurrence of the target, in list order; later
  occurrences are ignored, and an absent target gives two empty windows instead of an error.
\<close>

theorem get_validated_context_codes_first_occurrence:
  assumes "0 \<le> k"
  shows "(target \<notin> set xs \<longrightarrow>
            get_validated_context_codes xs target k = \<lparr>before = [], after = []\<rparr>)
       \<and> (\<forall>pre post. xs = pre @ target # post \<and> target \<notin> set pre \<longrightarrow>
            get_validated_context_codes xs target k
              = \<lparr>before = drop (length pre - nat k) pre, after = take (nat k) post\<rparr>)"
proof (intro conjI allI impI)
  assume "target \<notin> set xs"
  then have "py_index xs target = None" by (simp add: py_index_None)
  then show "get_validated_context_codes xs target k = \<lparr>before = [], after = []\<rparr>"
    by (simp add: get_validated_context_codes_def)
next
  fix pre post
  assume h: "xs = pre @ target # post \<and> target \<notin> set pre"
  then have xs: "xs = pre @ target # post" and notin: "target \<notin> set pre"
    by auto
  have idx: "py_index (pre @ target # post) target = Some (length pre)"
    using notin by (rule py_index_first)
  show "get_validated_context_codes xs target k
          = \<lparr>before = drop (length pre - nat k) pre, after = take (nat k) post\<rparr>"
    unfolding xs get_validated_context_codes_def idx
    using slice_before [OF assms, of pre target post] slice_after [OF assms, of pre target post]
    by simp
qed

theorem get_validated_context_codes_first_occurrence_witness:
  "(0::int) \<le> 1
   \<and> get_validated_context_codes [''A1X'', ''P0B'', ''B2Y'', ''P0B'', ''C3Z''] ''P0B'' 1
       = \<lparr>before = [''A1X''], after = [''B2Y'']\<rparr>
   \<and> get_validated_context_codes [''A1X'', ''P0B''] ''ZZZ'' 1 = \<lparr>before = [], after = []\<rparr>"
proof -
  have k: "(0::int) \<le> 1" by simp
  have a: "get_validated_context_codes [''A1X'', ''P0B'', ''B2Y'', ''P0B'', ''C3Z''] ''P0B'' 1
       = \<lparr>before = [''A1X''], after = [''B2Y'']\<rparr>"
    using get_validated_context_codes_first_occurrence
            [OF k, of "''P0B''" "[''A1X'', ''P0B'', ''B2Y'', ''P0B'', ''C3Z'']",
             THEN conjunct2, THEN spec, of "[''A1X'']", THEN spec, of "[''B2Y'', ''P0B'', ''C3Z'']"]
    by simp
  have b: "get_validated_context_codes [''A1X'', ''P0B''] ''ZZZ'' 1 = \<lparr>before = [], after = []\<rparr>"
    using get_validated_context_codes_first_occurrence [OF k, of "''ZZZ''" "[''A1X'', ''P0B'']"]
    by simp
  show ?thesis using k a b by blast
qed

section \<open>Properties of the confidence scorer\<close>

lemma fold_bonus_upt:
  "fold (\<lambda>i (bonus, m). if P i then (bonus + (w i :: rat), m + 1) else (bonus, m)) [0..<n] (b, k)
   = (b + (\<Sum>i<n. if P i then w i else 0), k + card {i. i < n \<and> P i})"
proof (induction n)
  case 0
  then show ?case by simp
next
  case (Suc n)
  have split: "{i. i < Suc n \<and> P i} = (if P n then insert n {i. i < n \<and> P i} else {i. i < n \<and> P i})"
    by (auto simp: less_Suc_eq)
  show ?case
    using Suc by (simp add: split)
qed

lemma agreement_bonus_sum:
  "agreement_bonus ws xs ys
   = (\<Sum>i<min (min (length xs) (length ys)) (length ws). if xs ! i = ys ! i then ws ! i else 0)"
proof -
  let ?zs = "zip (zip xs ys) ws"
  let ?f = "\<lambda>((c1, c2), w). if c1 = c2 then w else (0::rat)"
  have len: "length ?zs = min (min (length xs) (length ys)) (length ws)" by simp
  have "sum_list (map ?f ?zs) = (\<Sum>i<length ?zs. ?f (?zs ! i))"
    by (simp add: sum_list_sum_nth atLeast0LessThan)
  also have "\<dots> = (\<Sum>i<length ?zs. if xs ! i = ys ! i then ws ! i else 0)"
    by (rule sum.cong) auto
  finally show ?thesis
    unfolding agreement_bonus_def len .
qed


lemma context_weights_spec: "context_weights c1 c2 = spec_weights c1 c2"
  by (auto simp: context_weights_def spec_weights_def Let_def)

lemma length_spec_weights: "length (fst (spec_weights c1 c2)) = 3" "length (snd (spec_weights c1 c2)) = 3"
  by (auto simp: spec_weights_def)

lemma before_loop:
  assumes "length ws = 3"
  shows "fst (check_context_before ws b1 b2 (min (min (length b1) (length b2)) 3) (0, 0))
         = agreement_bonus ws (rev b1) (rev b2)"
proof -
  have "(\<Sum>i<min (min (length b1) (length b2)) 3.
            if b1 ! (length b1 - (i + 1)) = b2 ! (length b2 - (i + 1)) then ws ! i else 0)
        = (\<Sum>i<min (min (length b1) (length b2)) 3.
            if rev b1 ! i = rev b2 ! i then ws ! i else 0)"
    by (rule sum.cong) (auto simp: rev_nth)
  then show ?thesis
    using assms by (simp add: check_context_before_def fold_bonus_upt agreement_bonus_sum)
qed

lemma after_loop:
  assumes "length ws = 3"
  shows "fst (check_context_after ws a1 a2 (min (min (length a1) (length a2)) 3) (b0, 0))
         = b0 + agreement_bonus ws a1 a2"
  using assms by (simp add: check_context_after_def fold_bonus_upt agreement_bonus_sum)

text \<open>
  C2. The probability returned by \<open>calculate_precise_probability\<close> is
  \<open>clamp (base + bonus, 0, 1)\<close> with the base and the context weights of the
  specification: \<open>spec_probability\<close> is that formula, written from the specification.
\<close>

theorem calculate_precise_probability_spec:
  "fst (calculate_precise_probability code c1 c2 context1 context2 both)
   = spec_probability c1 c2 context1 context2 both"
proof (cases both)
  case False
  then show ?thesis
    by (simp add: calculate_precise_probability_def spec_probability_def spec_base_def
        spec_bonus_def Let_def)
next
  case True
  obtain wb wa where w: "spec_weights c1 c2 = (wb, wa)" by (cases "spec_weights c1 c2")
  have lb: "length wb = 3" and la: "length wa = 3"
    using length_spec_weights [of c1 c2] w by simp_all
  have base: "max 0 (0.80 - of_int (c1 + c2) * 0.10) = spec_base c1 c2 True"
    by (simp add: spec_base_def mult.commute)
  obtain bb bm where fb: "check_context_before wb (before context1) (before context2)
       (min (min (length (before context1)) (length (before context2))) 3) (0, 0) = (bb, bm)"
    by (meson surj_pair)
  have bb: "bb = agreement_bonus wb (rev (before context1)) (rev (before context2))"
    using before_loop [OF lb, of "before context1" "before context2"] fb by simp
  obtain ab am where fa: "check_context_after wa (after context1) (after context2)
       (min (min (length (after context1)) (length (after context2))) 3) (bb, 0) = (ab, am)"
    by (meson surj_pair)
  have ab: "ab = bb + agreement_bonus wa (after context1) (after context2)"
    using after_loop [OF la, of "after context1" "after context2" bb] fa by simp
  have "fst (calculate_precise_probability code c1 c2 context1 context2 True)
        = max 0 (min 1 (max 0 (0.80 - of_int (c1 + c2) * 0.10) + ab))"
    by (simp add: calculate_precise_probability_def Let_def context_weights_spec w fb fa)
  then show ?thesis
    using True by (simp only: base ab bb spec_probability_def spec_bonus_def w fst_conv snd_conv if_True)
qed

theorem calculate_precise_probability_spec_witness:
  "fst (calculate_precise_probability ''P0B'' 1 0
          \<lparr>before = [''A1X'', ''B2Y''], after = [''C3Z'']\<rparr>
          \<lparr>before = [''Q9Q'', ''B2Y''], after = [''C3Z'', ''D4W'']\<rparr> True) = 0.86
   \<and> spec_probability 1 0
          \<lparr>before = [''A1X'', ''B2Y''], after = [''C3Z'']\<rparr>
          \<lparr>before = [''Q9Q'', ''B2Y''], after = [''C3Z'', ''D4W'']\<rparr> True = 0.86"
proof -
  have "spec_probability 1 0
          \<lparr>before = [''A1X'', ''B2Y''], after = [''C3Z'']\<rparr>
          \<lparr>before = [''Q9Q'', ''B2Y''], after = [''C3Z'', ''D4W'']\<rparr> True = 0.86"
    by (simp add: spec_probability_def spec_base_def spec_bonus_def spec_weights_def
        agreement_bonus_def)
  then show ?thesis
    using calculate_precise_probability_spec [of "''P0B''" 1 0
        "\<lparr>before = [''A1X'', ''B2Y''], after = [''C3Z'']\<rparr>"
        "\<lparr>before = [''Q9Q'', ''B2Y''], after = [''C3Z'', ''D4W'']\<rparr>" True]
    by simp
qed

section \<open>Properties of the variant generator\<close>

lemma itertools_product_product_lists: "itertools_product xss = product_lists xss"
  by (induction xss) simp_all

lemma set_get_variants_for_position:
  assumes "valid_set_order so"
  shows "set (get_variants_for_position so ch)
         = {x. x = ch \<or> (\<exists>subs. ocr_substitutions ch = Some subs \<and> x \<in> set subs)}"
  using assms
  by (auto simp: get_variants_for_position_def valid_set_order_def split: option.splits)

lemma distinct_get_variants_for_position:
  "valid_set_order so \<Longrightarrow> distinct (get_variants_for_position so ch)"
  by (simp add: get_variants_for_position_def valid_set_order_def)

lemma set_itertools_product_positions:
  assumes "valid_set_order so"
  shows "set (itertools_product (map (get_variants_for_position so) c))
         = {v. length v = length c
               \<and> (\<forall>i<length c. v ! i = c ! i
                     \<or> (\<exists>subs. ocr_substitutions (c ! i) = Some subs \<and> v ! i \<in> set subs))}"
proof -
  have "list_all2 (\<lambda>x ys. x \<in> set ys) v (map (get_variants_for_position so) c)
        \<longleftrightarrow> length v = length c
            \<and> (\<forall>i<length c. v ! i = c ! i
                  \<or> (\<exists>subs. ocr_substitutions (c ! i) = Some subs \<and> v ! i \<in> set subs))" for v
  proof (cases "length v = length c")
    case True
    then show ?thesis
      by (simp add: list_all2_conv_all_nth set_get_variants_for_position [OF assms])
  next
    case False
    then show ?thesis by (simp add: list_all2_conv_all_nth)
  qed
  then show ?thesis
    unfolding itertools_product_product_lists product_lists_set by simp
qed

lemma length_itertools_product: "v \<in> set (itertools_product xss) \<Longrightarrow> length v = length xss"
  unfolding itertools_product_product_lists by (rule in_set_product_lists_length)

lemma count_changes_card:
  "count_changes c v = card {i. i < length v \<and> i < length c \<and> v ! i \<noteq> c ! i}"
proof -
  have "{i. i < length (enumerate 0 v) \<and> (case enumerate 0 v ! i of (j, ch) \<Rightarrow> j < length c \<and> ch \<noteq> c ! j)}
        = {i. i < length v \<and> i < length c \<and> v ! i \<noteq> c ! i}"
    by (auto simp: nth_enumerate_eq)
  then show ?thesis
    by (simp add: count_changes_def length_filter_conv_card)
qed

text \<open>
  C4. For every code \<open>c\<close> (and every iteration order of the per-position sets),
  \<open>generate_all_ocr_variants c\<close> is \<open>c\<close> followed by the substitution permutations of
  \<open>c\<close>: each string of the same length that differs from \<open>c\<close> and has, at every
  position, the character of \<open>c\<close> or one of its confusable characters, each once, sorted
  in ascending order of the number of positions at which it differs from \<open>c\<close>.
\<close>

theorem generate_all_ocr_variants_ordered:
  assumes "valid_set_order so"
  shows "\<exists>rest. generate_all_ocr_variants so c = c # rest
      \<and> sorted (map (count_changes c) rest)
      \<and> distinct rest
      \<and> set rest = {v. length v = length c
                       \<and> (\<forall>i<length c. v ! i = c ! i
                             \<or> (\<exists>subs. ocr_substitutions (c ! i) = Some subs \<and> v ! i \<in> set subs))
                       \<and> v \<noteq> c}
      \<and> (\<forall>v\<in>set rest. count_changes c v = card {i. i < length c \<and> v ! i \<noteq> c ! i})"
proof -
  let ?prod = "itertools_product (map (get_variants_for_position so) c)"
  let ?rest = "sort_key (count_changes c) (filter (\<lambda>variant. variant \<noteq> c) ?prod)"
  have gen: "generate_all_ocr_variants so c = c # ?rest"
    by (simp add: generate_all_ocr_variants_def)
  have srt: "sorted (map (count_changes c) ?rest)"
    by (rule sorted_sort_key)
  have "distinct ?prod"
    unfolding itertools_product_product_lists
    by (rule distinct_product_lists) (auto simp: distinct_get_variants_for_position [OF assms])
  then have dist: "distinct ?rest" by simp
  have st: "set ?rest = {v. length v = length c
                       \<and> (\<forall>i<length c. v ! i = c ! i
                             \<or> (\<exists>subs. ocr_substitutions (c ! i) = Some subs \<and> v ! i \<in> set subs))
                       \<and> v \<noteq> c}"
    using set_itertools_product_positions [OF assms, of c] by auto
  have cnt: "\<forall>v\<in>set ?rest. count_changes c v = card {i. i < length c \<and> v ! i \<noteq> c ! i}"
  proof
    fix v assume "v \<in> set ?rest"
    then have "v \<in> {v. length v = length c
                       \<and> (\<forall>i<length c. v ! i = c ! i
                             \<or> (\<exists>subs. ocr_substitutions (c ! i) = Some subs \<and> v ! i \<in> set subs))
                       \<and> v \<noteq> c}"
      unfolding st .
    then have "length v = length c" by simp
    then show "count_changes c v = card {i. i < length c \<and> v ! i \<noteq> c ! i}"
      by (simp add: count_changes_card)
  qed
  show ?thesis
    using gen srt dist st cnt by blast
qed

lemma valid_set_order_remdups: "valid_set_order remdups"
  by (simp add: valid_set_order_def)

lemma valid_set_order_rev_remdups: "valid_set_order (rev \<circ> remdups)"
  by (simp add: valid_set_order_def)

theorem generate_all_ocr_variants_ordered_witness:
  "valid_set_order remdups
   \<and> generate_all_ocr_variants remdups ''I23'' = [''I23'', ''IZ3'', ''123'', ''L23'', ''1Z3'', ''LZ3'']
   \<and> (\<exists>rest. generate_all_ocr_variants remdups ''I23'' = ''I23'' # rest
          \<and> sorted (map (count_changes ''I23'') rest))"
proof -
  have ev: "generate_all_ocr_variants remdups ''I23'' = [''I23'', ''IZ3'', ''123'', ''L23'', ''1Z3'', ''LZ3'']"
    by (simp add: generate_all_ocr_variants_def get_variants_for_position_def
        ocr_substitutions_def count_changes_def)
  show ?thesis
    using valid_set_order_remdups ev
      generate_all_ocr_variants_ordered [OF valid_set_order_remdups, of "''I23''"]
    by blast
qed


section \<open>Lengths of the generated variants\<close>

lemma length_apply_combination: "length (apply_combination combination s) = length s"
  unfolding apply_combination_def
  by (induction combination arbitrary: s) (auto split: prod.splits)

lemma apply_zero_rule_cases:
  "apply_zero_rule w = w \<or> length (apply_zero_rule w) = length w - 1"
  by (auto simp: apply_zero_rule_def Let_def)

lemma fold_insert_variants:
  "fold (\<lambda>x S. insert (h x) (insert (f x) S)) xs S0 = S0 \<union> f ` set xs \<union> h ` set xs"
  by (induction xs arbitrary: S0) auto

lemma dropWhile_none: "\<forall>x\<in>set xs. \<not> P x \<Longrightarrow> dropWhile P xs = xs"
  by (cases xs) auto

lemma clean_whitespace_id:
  assumes "\<forall>ch\<in>set c. \<not> py_isspace ch"
  shows "clean_whitespace c = c"
proof -
  have "py_strip c = c"
    using assms by (simp add: py_strip_def dropWhile_none)
  then show ?thesis
    using assms by (simp add: clean_whitespace_def filter_id_conv)
qed

lemma generate_variants_elements:
  assumes "v \<in> generate_variants code"
  shows "\<exists>w. length w = length (py_upper (clean_whitespace code)) \<and> (v = w \<or> v = apply_zero_rule w)"
proof -
  let ?c = "py_upper (clean_whitespace code)"
  have "v = ?c \<or> (\<exists>comb. v = apply_combination comb ?c \<or> v = apply_zero_rule (apply_combination comb ?c))"
    using assms
    by (auto simp: generate_variants_def Let_def fold_insert_variants split: if_splits)
  then show ?thesis
    using length_apply_combination by metis
qed

text \<open>
  C5. Every element of \<open>generate_all_ocr_variants c\<close> has the length of \<open>c\<close>. For a
  code \<open>c\<close> without whitespace, every element of \<open>OCRCorrector.generate_variants c\<close> has
  the length of \<open>c\<close>, except the outputs of the zero rule (the shortening heuristic), which
  are one character shorter.
\<close>

theorem variant_lengths:
  "(\<forall>v\<in>set (generate_all_ocr_variants so c). length v = length c)
   \<and> ((\<forall>ch\<in>set c. \<not> py_isspace ch) \<longrightarrow>
        (\<forall>v\<in>generate_variants c.
            length v = length c
            \<or> (\<exists>w. length w = length c \<and> v = apply_zero_rule w \<and> length v = length c - 1)))"
proof (intro conjI impI ballI)
  fix v assume "v \<in> set (generate_all_ocr_variants so c)"
  then have "v = c \<or> v \<in> set (itertools_product (map (get_variants_for_position so) c))"
    by (auto simp: generate_all_ocr_variants_def)
  then show "length v = length c"
    using length_itertools_product by fastforce
next
  fix v
  assume ws: "\<forall>ch\<in>set c. \<not> py_isspace ch" and v: "v \<in> generate_variants c"
  have len: "length (py_upper (clean_whitespace c)) = length c"
    using clean_whitespace_id [OF ws] by (simp add: py_upper_def)
  obtain w where w: "length w = length c" "v = w \<or> v = apply_zero_rule w"
    using generate_variants_elements [OF v] len by auto
  show "length v = length c
        \<or> (\<exists>w. length w = length c \<and> v = apply_zero_rule w \<and> length v = length c - 1)"
    using w apply_zero_rule_cases [of w] by metis
qed

theorem variant_lengths_witness:
  "''ABC'' \<in> generate_variants ''A0BC''
   \<and> (\<exists>w. length w = length ''A0BC'' \<and> ''ABC'' = apply_zero_rule w)
   \<and> ''AO8C'' \<in> set (generate_all_ocr_variants remdups ''A0BC'')
   \<and> length ''AO8C'' = length ''A0BC''"
proof -
  have ws: "\<forall>ch\<in>set ''A0BC''. \<not> py_isspace ch"
    by (simp add: py_isspace_def)
  have ev: "generate_variants ''A0BC'' = {''AO8C'', ''AOBC'', ''A8C'', ''A08C'', ''ABC'', ''A0BC''}"
    by (simp add: generate_variants_def clean_whitespace_def py_strip_def py_isspace_def
        py_upper_def upper_char_def substitutions_def apply_combination_def apply_zero_rule_def
        insert_commute)
  have m: "''ABC'' \<in> generate_variants ''A0BC''"
    unfolding ev by simp
  have g: "''AO8C'' \<in> set (generate_all_ocr_variants remdups ''A0BC'')"
    by (simp add: generate_all_ocr_variants_def get_variants_for_position_def
        ocr_substitutions_def)
  have "length ''ABC'' = length ''A0BC''
        \<or> (\<exists>w. length w = length ''A0BC'' \<and> ''ABC'' = apply_zero_rule w
                \<and> length ''ABC'' = length ''A0BC'' - 1)"
    using variant_lengths [of remdups "''A0BC''"] ws m by blast
  then have z: "\<exists>w. length w = length ''A0BC'' \<and> ''ABC'' = apply_zero_rule w"
    by auto
  have "length ''AO8C'' = length ''A0BC''"
    using variant_lengths [of remdups "''A0BC''"] g by blast
  then show ?thesis using m z g by blast
qed

section \<open>The resolver and the order of set iteration\<close>

text \<open>
  C3. The resolver returns the first variant, in the generator's order, that is in the
  vocabulary, and it reads the vocabulary only through membership tests. The generator's
  order among variants with the same number of changes is the order in which
  \<open>list(set(variants))\<close> yields the alternatives of a position, which is not fixed: with
  the vocabulary 123, L23 the candidate I23 resolves to 123 under one admissible iteration
  order and to L23 under another.
\<close>

theorem clean_code_advanced_depends_on_set_order:
  "valid_set_order remdups \<and> valid_set_order (rev \<circ> remdups)
   \<and> clean_code_advanced remdups ''I23'' {''123'', ''L23''} = ''123''
   \<and> clean_code_advanced (rev \<circ> remdups) ''I23'' {''123'', ''L23''} = ''L23''"
proof -
  have a: "clean_code_advanced remdups ''I23'' {''123'', ''L23''} = ''123''"
    by (simp add: clean_code_advanced_def generate_all_ocr_variants_def get_variants_for_position_def
      ocr_substitutions_def py_upper_def py_strip_def strip_trailing_punct_def upper_char_def
      py_isspace_def is_trailing_punct_def count_changes_def)
  have b: "clean_code_advanced (rev \<circ> remdups) ''I23'' {''123'', ''L23''} = ''L23''"
    by (simp add: clean_code_advanced_def generate_all_ocr_variants_def get_variants_for_position_def
      ocr_substitutions_def py_upper_def py_strip_def strip_trailing_punct_def upper_char_def
      py_isspace_def is_trailing_punct_def count_changes_def)
  show ?thesis
    using a b valid_set_order_remdups valid_set_order_rev_remdups by blast
qed


section \<open>Direct matches\<close>

lemma upper_char_cases:
  "upper_char c = c
   \<or> (c \<in> set ''abcdefghijklmnopqrstuvwxyz'' \<and> upper_char c \<in> set ''ABCDEFGHIJKLMNOPQRSTUVWXYZ'')"
proof (cases "map_of (zip ''abcdefghijklmnopqrstuvwxyz'' ''ABCDEFGHIJKLMNOPQRSTUVWXYZ'') c")
  case None
  then show ?thesis unfolding upper_char_def by simp
next
  case (Some u)
  then have "(c, u) \<in> set (zip ''abcdefghijklmnopqrstuvwxyz'' ''ABCDEFGHIJKLMNOPQRSTUVWXYZ'')"
    by (rule map_of_SomeD)
  then have "c \<in> set ''abcdefghijklmnopqrstuvwxyz''" "u \<in> set ''ABCDEFGHIJKLMNOPQRSTUVWXYZ''"
    by (rule set_zip_leftD, rule set_zip_rightD)
  moreover have "upper_char c = u" unfolding upper_char_def using Some by simp
  ultimately show ?thesis by simp
qed


lemma lower_not_space:
  assumes "c \<in> set ''abcdefghijklmnopqrstuvwxyz''"
  shows "\<not> py_isspace c"
  using assms unfolding py_isspace_def by (simp; elim disjE; simp)


lemma lower_not_punct:
  assumes "c \<in> set ''abcdefghijklmnopqrstuvwxyz''"
  shows "\<not> is_trailing_punct c"
  using assms unfolding is_trailing_punct_def by (simp; elim disjE; simp)

lemma lower_not_newline:
  assumes "c \<in> set ''abcdefghijklmnopqrstuvwxyz''"
  shows "c \<noteq> CHR 0x0A"
  using assms by (simp; elim disjE; simp)

lemma upper_not_space:
  assumes "c \<in> set ''ABCDEFGHIJKLMNOPQRSTUVWXYZ''"
  shows "\<not> py_isspace c"
  using assms unfolding py_isspace_def by (simp; elim disjE; simp)

lemma upper_not_punct:
  assumes "c \<in> set ''ABCDEFGHIJKLMNOPQRSTUVWXYZ''"
  shows "\<not> is_trailing_punct c"
  using assms unfolding is_trailing_punct_def by (simp; elim disjE; simp)

lemma upper_not_newline:
  assumes "c \<in> set ''ABCDEFGHIJKLMNOPQRSTUVWXYZ''"
  shows "c \<noteq> CHR 0x0A"
  using assms by (simp; elim disjE; simp)

lemma upper_char_upper:
  assumes "c \<in> set ''ABCDEFGHIJKLMNOPQRSTUVWXYZ''"
  shows "upper_char c = c"
  using assms unfolding upper_char_def by (simp; elim disjE; simp)

lemma py_isspace_upper_char: "py_isspace (upper_char c) = py_isspace c"
  using upper_char_cases [of c] lower_not_space upper_not_space by metis

lemma is_trailing_punct_upper_char: "is_trailing_punct (upper_char c) = is_trailing_punct c"
  using upper_char_cases [of c] lower_not_punct upper_not_punct by metis

lemma upper_char_newline: "upper_char c = CHR 0x0A \<longleftrightarrow> c = CHR 0x0A"
  using upper_char_cases [of c] lower_not_newline upper_not_newline by metis

lemma upper_char_idem: "upper_char (upper_char c) = upper_char c"
  using upper_char_cases [of c] upper_char_upper by metis

lemma py_upper_idem: "py_upper (py_upper s) = py_upper s"
  by (simp add: py_upper_def upper_char_idem)

lemma py_strip_py_upper: "py_strip (py_upper s) = py_upper (py_strip s)"
proof -
  have "py_isspace \<circ> upper_char = py_isspace"
    by (rule ext) (simp add: py_isspace_upper_char)
  then show ?thesis
    by (simp add: py_strip_def py_upper_def dropWhile_map rev_map)
qed

lemma strip_trailing_punct_py_upper:
  "strip_trailing_punct (py_upper s) = py_upper (strip_trailing_punct s)"
proof -
  have c: "is_trailing_punct \<circ> upper_char = is_trailing_punct"
    by (rule ext) (simp add: is_trailing_punct_upper_char)
  have d: "rev (dropWhile is_trailing_punct (rev (map upper_char t)))
           = map upper_char (rev (dropWhile is_trailing_punct (rev t)))" for t
    by (simp add: dropWhile_map rev_map c)
  have nl: "upper_char CHR 0x0A = CHR 0x0A"
    using upper_char_newline [of "CHR 0x0A"] by simp
  show ?thesis
  proof (cases "s = []")
    case True
    then show ?thesis by (simp add: strip_trailing_punct_def py_upper_def)
  next
    case False
    show ?thesis
    proof (cases "butlast s = []")
      case True
      then show ?thesis
        using False
        by (simp add: strip_trailing_punct_def py_upper_def d map_butlast [symmetric])
    next
      case nb: False
      then show ?thesis
        using False
        by (simp add: strip_trailing_punct_def py_upper_def d map_butlast [symmetric] last_map
            upper_char_newline is_trailing_punct_upper_char nl)
    qed
  qed
qed

lemma strip_fixed:
  assumes "t = [] \<or> (\<not> P (hd t) \<and> \<not> P (last t))"
  shows "rev (dropWhile P (rev (dropWhile P t))) = t"
proof (cases "t = []")
  case True
  then show ?thesis by simp
next
  case False
  then have a: "dropWhile P t = t" using assms by (cases t) auto
  have "rev t \<noteq> []" using False by simp
  moreover have "\<not> P (hd (rev t))" using assms False by (simp add: hd_rev)
  ultimately have "dropWhile P (rev t) = rev t" by (cases "rev t") auto
  then show ?thesis using a by simp
qed

lemma last_dropWhile_nonempty: "dropWhile P xs \<noteq> [] \<Longrightarrow> last (dropWhile P xs) = last xs"
  by (induction xs) (auto split: if_splits)

lemma strip_result:
  "rev (dropWhile P (rev (dropWhile P s))) = []
   \<or> (\<not> P (hd (rev (dropWhile P (rev (dropWhile P s)))))
      \<and> \<not> P (last (rev (dropWhile P (rev (dropWhile P s))))))"
proof (cases "dropWhile P (rev (dropWhile P s)) = []")
  case True
  then show ?thesis by simp
next
  case False
  let ?u = "dropWhile P s"
  let ?x = "dropWhile P (rev ?u)"
  have x: "\<not> P (hd ?x)" using False by (rule hd_dropWhile)
  have un: "?u \<noteq> []"
  proof
    assume e: "?u = []"
    have "?x = []" unfolding e by simp
    with False show False by blast
  qed
  then have u: "\<not> P (hd ?u)" by (rule hd_dropWhile)
  have "last ?x = last (rev ?u)" using False by (rule last_dropWhile_nonempty)
  also have "\<dots> = hd ?u" using un by (simp add: last_rev)
  finally have "\<not> P (last ?x)" using u by simp
  then show ?thesis using x False by (simp add: hd_rev last_rev)
qed

lemma py_strip_idem: "py_strip (py_strip s) = py_strip s"
  unfolding py_strip_def using strip_fixed [OF strip_result] .

lemma basic_cleaned_normalize:
  "py_upper (strip_trailing_punct (py_strip (py_strip (py_upper code)))) = normalize code"
  by (simp add: normalize_def py_strip_idem py_strip_py_upper strip_trailing_punct_py_upper
      py_upper_idem)


lemma find_first_variant:
  "c \<in> V \<Longrightarrow> find (\<lambda>variant. variant \<in> V) (generate_all_ocr_variants so c) = Some c"
  by (simp add: generate_all_ocr_variants_def)

text \<open>
  C6. When the normalised form of a candidate is in the vocabulary, resolution stops there:
  \<open>clean_code_advanced\<close> returns the normalised form itself, the correction count between
  the normalised form and the result is 0, and the validation step of \<open>extract_codes\<close>
  adds the normalised form to the validated set and records no correction, so that neither
  a substitution variant nor the shortened form is used.
\<close>

theorem resolution_short_circuit:
  assumes "normalize code \<in> V"
  shows "clean_code_advanced so code V = normalize code
       \<and> count_corrections_needed (normalize code) (clean_code_advanced so code V) = 0
       \<and> validate_raw_code so V n i code validated correction_info
           = (insert (normalize code) validated, correction_info)"
proof -
  have ne: "V \<noteq> {}" using assms by auto
  have r: "clean_code_advanced so code V = normalize code"
  proof (cases "code = []")
    case True
    then show ?thesis
      by (simp add: clean_code_advanced_def normalize_def py_strip_def py_upper_def
          strip_trailing_punct_def)
  next
    case False
    have "find (\<lambda>variant. variant \<in> V)
            (generate_all_ocr_variants so (py_upper (strip_trailing_punct (py_strip code))))
          = Some (py_upper (strip_trailing_punct (py_strip code)))"
      using assms unfolding normalize_def by (rule find_first_variant)
    then show ?thesis
      using False ne by (simp add: clean_code_advanced_def Let_def normalize_def)
  qed
  have c: "count_corrections_needed (normalize code) (clean_code_advanced so code V) = 0"
    unfolding r by (simp add: count_corrections_needed_def)
  have v: "validate_raw_code so V n i code validated correction_info
           = (insert (normalize code) validated, correction_info)"
    using assms by (simp add: validate_raw_code_def Let_def basic_cleaned_normalize)
  show ?thesis using r c v by blast
qed

theorem resolution_short_circuit_witness:
  "normalize '' p0b.;'' = ''P0B'' \<and> ''P0B'' \<in> {''P0B'', ''P08''}
   \<and> clean_code_advanced remdups '' p0b.;'' {''P0B'', ''P08''} = ''P0B''
   \<and> validate_raw_code remdups {''P0B'', ''P08''} 1 0 '' p0b.;'' {} [] = ({''P0B''}, [])"
proof -
  have n: "normalize '' p0b.;'' = ''P0B''"
    by (simp add: normalize_def py_strip_def py_upper_def strip_trailing_punct_def
        upper_char_def py_isspace_def is_trailing_punct_def)
  have m: "normalize '' p0b.;'' \<in> {''P0B'', ''P08''}"
    unfolding n by simp
  show ?thesis
    using n resolution_short_circuit [OF m, of remdups 1 0 "{}" "[]"] by simp
qed

section \<open>Properties of the reconciliation engine\<close>

lemma fold_invariant:
  assumes "P s" and "\<And>x s. x \<in> set xs \<Longrightarrow> P s \<Longrightarrow> P (f x s)"
  shows "P (fold f xs s)"
  using assms by (induction xs arbitrary: s) auto

lemma compare_sets_pdf1: "in_both (compare_sets A B) \<union> only_in_pdf1 (compare_sets A B) = A"
  by (auto simp: compare_sets_def categorize_codes_by_type_def Let_def)

lemma compare_sets_pdf2: "only_in_pdf2 (compare_sets A B) \<subseteq> B"
  by (auto simp: compare_sets_def categorize_codes_by_type_def Let_def)

subsection \<open>The corrected set of document 1 only grows\<close>

lemma extended_corrections_pdf1_mono:
  "snd s \<subseteq> snd (extended_corrections_pdf1 av1 av2 ci1 s)"
  unfolding extended_corrections_pdf1_def
  by (rule fold_invariant [where P = "\<lambda>t. snd s \<subseteq> snd t"])
     (auto simp: Let_def split: prod.splits)

lemma extended_corrections_pdf2_mono:
  "snd s \<subseteq> snd (extended_corrections_pdf2 av1 av2 ci2 s)"
  unfolding extended_corrections_pdf2_def
  by (rule fold_invariant [where P = "\<lambda>t. snd s \<subseteq> snd t"])
     (auto simp: Let_def split: prod.splits)

lemma check_combo_cases:
  "check_combo so V codes2 av1 av2 combo (ac, cc) = (ac, cc)
   \<or> (\<exists>r code. check_combo so V codes2 av1 av2 combo (ac, cc) = (ac @ [r], insert code cc)
          \<and> 0.6 \<le> probability r \<and> correction_type r = ''Korrekturmatch''
          \<and> corrected r = code)"
proof -
  let ?cleaned = "clean_code_advanced so (combined combo) V"
  obtain p0 d where c: "calculate_precise_probability ?cleaned
        (count_corrections_needed (py_join '' '' (parts combo)) ?cleaned) 0
        (get_validated_context_codes av1 ?cleaned 3)
        (get_validated_context_codes av2 ?cleaned 3) True = (p0, d)"
    by (meson surj_pair)
  define p where "p = (if length (combo_substitutions combo) > 0
                       then max 0.1 (min 1.0 (p0 + (0.1 - penalty combo))) else p0)"
  have eq: "check_combo so V codes2 av1 av2 combo (ac, cc)
        = (if ?cleaned \<in> V \<and> ?cleaned \<in> codes2 \<and> 0.6 \<le> p
           then (ac @ [\<lparr>original = py_join '' '' (parts combo), corrected = ?cleaned,
                        probability = p, correction_type = ''Korrekturmatch''\<rparr>],
                 insert ?cleaned cc)
           else (ac, cc))"
    unfolding check_combo_def Let_def c p_def by (simp only: prod.case if_distrib) auto
  show ?thesis
    unfolding eq by auto
qed

lemma whitespace_corrections_mono:
  "snd s \<subseteq> snd (whitespace_corrections so V codes2 av1 av2 combos s)"
  unfolding whitespace_corrections_def
proof (rule fold_invariant [where P = "\<lambda>t. snd s \<subseteq> snd t"])
  show "snd s \<subseteq> snd s" by simp
next
  fix x and t :: "correction list \<times> string set"
  assume "snd s \<subseteq> snd t"
  then show "snd s \<subseteq> snd (check_combo so V codes2 av1 av2 x t)"
    using check_combo_cases [of so V codes2 av1 av2 x "fst t" "snd t"] by auto
qed

lemma corrections_for_target_mono:
  "snd s \<subseteq> snd (corrections_for_target so V av1 av2 raw1 target s)"
  unfolding corrections_for_target_def Let_def
  by (rule fold_invariant [where P = "\<lambda>t. snd s \<subseteq> snd t"])
     (auto simp: Let_def split: prod.splits if_splits)

lemma substitution_corrections_mono:
  "snd s \<subseteq> snd (substitution_corrections so V av1 av2 raw1 targets s)"
  unfolding substitution_corrections_def
proof (rule fold_invariant [where P = "\<lambda>t. snd s \<subseteq> snd t"])
  show "snd s \<subseteq> snd s" by simp
next
  fix target and t :: "correction list \<times> string set"
  assume "snd s \<subseteq> snd t"
  then show "snd s \<subseteq> snd (corrections_for_target so V av1 av2 raw1 target t)"
    using corrections_for_target_mono [of t so V av1 av2 raw1 target] by blast
qed

lemma corrected_codes_superset:
  "codes_pdf1 \<subseteq> snd (corrected_codes_and_corrections so it codes_pdf1 codes_pdf2 raw1 raw2 V
                         lines1 ci1 ci2)"
proof -
  let ?av1 = "validated_sequence so V raw1" and ?av2 = "validated_sequence so V raw2"
  let ?s1 = "extended_corrections_pdf1 ?av1 ?av2 ci1 ([], codes_pdf1)"
  let ?s2 = "extended_corrections_pdf2 ?av1 ?av2 ci2 ?s1"
  let ?s3 = "whitespace_corrections so V codes_pdf2 ?av1 ?av2
               (whitespace_combinations V lines1 raw1) ?s2"
  let ?s4 = "substitution_corrections so V ?av1 ?av2 raw1
               (it (only_in_pdf2 (compare_sets codes_pdf1 codes_pdf2))) ?s3"
  have "codes_pdf1 \<subseteq> snd ?s1"
    using extended_corrections_pdf1_mono [of "([], codes_pdf1)"] by simp
  also have "\<dots> \<subseteq> snd ?s2" by (rule extended_corrections_pdf2_mono)
  also have "\<dots> \<subseteq> snd ?s3" by (rule whitespace_corrections_mono)
  also have "\<dots> \<subseteq> snd ?s4" by (rule substitution_corrections_mono)
  finally show ?thesis
    by (simp add: corrected_codes_and_corrections_def Let_def)
qed

text \<open>
  C10. The corrected membership of document 1 that \<open>compare_codes_with_correction\<close>
  returns (the corrected \<open>in_both\<close> and \<open>only_in_pdf1\<close> sets together) contains every
  code of \<open>codes_pdf1\<close>: corrections only add codes to document 1.
\<close>

theorem corrected_pdf1_superset:
  "codes_pdf1 \<subseteq> in_both (corrected_sets (compare_codes_with_correction so it codes_pdf1 codes_pdf2
                                              raw1 raw2 V lines1 ci1 ci2))
               \<union> only_in_pdf1 (corrected_sets (compare_codes_with_correction so it codes_pdf1
                                                  codes_pdf2 raw1 raw2 V lines1 ci1 ci2))"
proof -
  obtain ac cc where s: "corrected_codes_and_corrections so it codes_pdf1 codes_pdf2 raw1 raw2 V
                           lines1 ci1 ci2 = (ac, cc)"
    by (meson surj_pair)
  have "codes_pdf1 \<subseteq> cc"
    using corrected_codes_superset [of codes_pdf1 so it codes_pdf2 raw1 raw2 V lines1 ci1 ci2] s
    by simp
  then show ?thesis
    by (simp add: compare_codes_with_correction_def s compare_sets_pdf1)
qed


subsection \<open>The admission gate\<close>

lemma gate_append_other:
  assumes "gate_invariant base (ac, cc)" and "correction_type r \<noteq> ''Korrekturmatch''"
  shows "gate_invariant base (ac @ [r], cc)"
  using assms unfolding gate_invariant_def by fastforce

lemma gate_append_admitted:
  assumes "gate_invariant base (ac, cc)" and "0.6 \<le> probability r"
    and "correction_type r = ''Korrekturmatch''" and "corrected r = code"
  shows "gate_invariant base (ac @ [r], insert code cc)"
  using assms unfolding gate_invariant_def by fastforce

lemma gate_insert_base:
  assumes "gate_invariant base (ac, cc)" and "code \<in> base"
  shows "gate_invariant base (ac, insert code cc)"
  using assms unfolding gate_invariant_def by fastforce

lemma gate_extended_pdf1:
  assumes "gate_invariant base s" and "ci_corrected ` set ci1 \<subseteq> base"
  shows "gate_invariant base (extended_corrections_pdf1 av1 av2 ci1 s)"
  unfolding extended_corrections_pdf1_def
proof (rule fold_invariant [where P = "gate_invariant base"])
  show "gate_invariant base s" by (rule assms(1))
next
  fix x and t :: "correction list \<times> string set"
  assume x: "x \<in> set ci1" and t: "gate_invariant base t"
  obtain ac cc where tt: "t = (ac, cc)" by (cases t)
  have "ci_corrected x \<in> base" using x assms(2) by auto
  then have "gate_invariant base (ac @ [r], insert (ci_corrected x) cc)"
    if "correction_type r = ''Erweiterte OCR-Korrektur''" for r
    using t tt that gate_append_other [of base ac "insert (ci_corrected x) cc" r]
      gate_insert_base [of base ac cc "ci_corrected x"] by simp
  then show "gate_invariant base
     ((\<lambda>corr_info (all_corrections, corrected_codes_pdf1).
             let context_pdf1 = get_validated_context_codes av1 (ci_corrected corr_info) 3;
                 context_pdf2 = get_validated_context_codes av2 (ci_corrected corr_info) 3;
                 corrections_count =
                   count_corrections_needed (ci_original corr_info) (ci_corrected corr_info);
                 (prob, details) =
                   calculate_precise_probability (ci_corrected corr_info) corrections_count 0
                     context_pdf1 context_pdf2 True
             in (all_corrections @
                   [\<lparr>original = ci_original corr_info, corrected = ci_corrected corr_info,
                     probability = prob, correction_type = ''Erweiterte OCR-Korrektur''\<rparr>],
                 insert (ci_corrected corr_info) corrected_codes_pdf1)) x t)"
    by (simp add: tt Let_def split: prod.splits)
qed

lemma gate_extended_pdf2:
  assumes "gate_invariant base s"
  shows "gate_invariant base (extended_corrections_pdf2 av1 av2 ci2 s)"
  unfolding extended_corrections_pdf2_def
  by (rule fold_invariant [where P = "gate_invariant base"], rule assms)
     (auto simp: Let_def gate_append_other split: prod.splits)

lemma gate_whitespace:
  assumes "gate_invariant base s"
  shows "gate_invariant base (whitespace_corrections so V codes2 av1 av2 combos s)"
  unfolding whitespace_corrections_def
proof (rule fold_invariant [where P = "gate_invariant base"])
  show "gate_invariant base s" by (rule assms)
next
  fix x and t :: "correction list \<times> string set"
  assume "gate_invariant base t"
  then show "gate_invariant base (check_combo so V codes2 av1 av2 x t)"
    using check_combo_cases [of so V codes2 av1 av2 x "fst t" "snd t"]
    by (auto simp: gate_append_admitted)
qed

lemma gate_for_target:
  assumes "gate_invariant base s"
  shows "gate_invariant base (corrections_for_target so V av1 av2 raw1 target s)"
  unfolding corrections_for_target_def Let_def
  by (rule fold_invariant [where P = "gate_invariant base"], rule assms)
     (auto simp: Let_def gate_append_admitted split: prod.splits if_splits)

lemma gate_substitution:
  assumes "gate_invariant base s"
  shows "gate_invariant base (substitution_corrections so V av1 av2 raw1 targets s)"
  unfolding substitution_corrections_def
  by (rule fold_invariant [where P = "gate_invariant base"], rule assms, rule gate_for_target)

lemma gate_direct:
  assumes "gate_invariant base (ac, cc)"
  shows "gate_invariant base (direct_matches av1 av2 infos codes ac, cc)"
  unfolding direct_matches_def Let_def
  by (rule fold_invariant [where P = "\<lambda>l. gate_invariant base (l, cc)"], rule assms)
     (auto simp: Let_def gate_append_other split: prod.splits if_splits)

lemma gate_corrected_codes_and_corrections:
  "gate_invariant (codes_pdf1 \<union> ci_corrected ` set ci1)
     (corrected_codes_and_corrections so it codes_pdf1 codes_pdf2 raw1 raw2 V lines1 ci1 ci2)"
proof -
  let ?base = "codes_pdf1 \<union> ci_corrected ` set ci1"
  let ?av1 = "validated_sequence so V raw1" and ?av2 = "validated_sequence so V raw2"
  let ?s1 = "extended_corrections_pdf1 ?av1 ?av2 ci1 ([], codes_pdf1)"
  let ?s2 = "extended_corrections_pdf2 ?av1 ?av2 ci2 ?s1"
  let ?s3 = "whitespace_corrections so V codes_pdf2 ?av1 ?av2
               (whitespace_combinations V lines1 raw1) ?s2"
  let ?s4 = "substitution_corrections so V ?av1 ?av2 raw1
               (it (only_in_pdf2 (compare_sets codes_pdf1 codes_pdf2))) ?s3"
  have "gate_invariant ?base ([], codes_pdf1)"
    by (simp add: gate_invariant_def)
  then have "gate_invariant ?base ?s1"
    by (rule gate_extended_pdf1) simp
  then have "gate_invariant ?base ?s2" by (rule gate_extended_pdf2)
  then have "gate_invariant ?base ?s3" by (rule gate_whitespace)
  then have "gate_invariant ?base ?s4" by (rule gate_substitution)
  then have "gate_invariant ?base (fst ?s4, snd ?s4)" by simp
  then have "gate_invariant ?base
     (direct_matches ?av1 ?av2 (ci1 @ ci2) (it (in_both (compare_sets codes_pdf1 codes_pdf2)))
        (fst ?s4), snd ?s4)"
    by (rule gate_direct)
  then show ?thesis
    by (simp add: corrected_codes_and_corrections_def Let_def)
qed

text \<open>
  C1 (as amended). In the result of \<open>compare_codes_with_correction\<close>, every correction of
  the fragment-merge and cross-document passes (the entries of type Korrekturmatch) has a
  probability of at least 0.60; every code of the corrected document-1 membership (corrected
  \<open>in_both\<close> and \<open>only_in_pdf1\<close>) is a code of \<open>codes_pdf1\<close>, or the corrected code of a
  resolver-sourced correction of document 1 (these are added whatever their probability),
  or the corrected code of a Korrekturmatch entry with probability at least 0.60; and the
  corrected \<open>only_in_pdf2\<close> set holds codes of \<open>codes_pdf2\<close> only.
\<close>

theorem admission_gate:
  "(\<forall>c\<in>set (corrections (compare_codes_with_correction so it codes_pdf1 codes_pdf2 raw1 raw2 V
                           lines1 ci1 ci2)).
       correction_type c = ''Korrekturmatch'' \<longrightarrow> 0.6 \<le> probability c)
   \<and> (\<forall>code\<in>in_both (corrected_sets (compare_codes_with_correction so it codes_pdf1 codes_pdf2
                                         raw1 raw2 V lines1 ci1 ci2))
              \<union> only_in_pdf1 (corrected_sets (compare_codes_with_correction so it codes_pdf1
                                                 codes_pdf2 raw1 raw2 V lines1 ci1 ci2)).
         code \<in> codes_pdf1 \<or> code \<in> ci_corrected ` set ci1
         \<or> (\<exists>c\<in>set (corrections (compare_codes_with_correction so it codes_pdf1 codes_pdf2 raw1
                                    raw2 V lines1 ci1 ci2)).
                correction_type c = ''Korrekturmatch'' \<and> corrected c = code
                \<and> 0.6 \<le> probability c))
   \<and> only_in_pdf2 (corrected_sets (compare_codes_with_correction so it codes_pdf1 codes_pdf2
                                     raw1 raw2 V lines1 ci1 ci2)) \<subseteq> codes_pdf2"
proof -
  obtain ac cc where s: "corrected_codes_and_corrections so it codes_pdf1 codes_pdf2 raw1 raw2 V
                           lines1 ci1 ci2 = (ac, cc)"
    by (meson surj_pair)
  have g: "gate_invariant (codes_pdf1 \<union> ci_corrected ` set ci1) (ac, cc)"
    using gate_corrected_codes_and_corrections
            [of codes_pdf1 ci1 so it codes_pdf2 raw1 raw2 V lines1 ci2] s by simp
  have r: "compare_codes_with_correction so it codes_pdf1 codes_pdf2 raw1 raw2 V lines1 ci1 ci2
           = \<lparr>original_sets = compare_sets codes_pdf1 codes_pdf2,
              corrected_sets = compare_sets cc codes_pdf2, corrections = ac\<rparr>"
    by (simp add: compare_codes_with_correction_def s)
  have a: "\<forall>c\<in>set ac. correction_type c = ''Korrekturmatch'' \<longrightarrow> 0.6 \<le> probability c"
    using g by (simp add: gate_invariant_def)
  have b: "\<forall>code\<in>in_both (compare_sets cc codes_pdf2) \<union> only_in_pdf1 (compare_sets cc codes_pdf2).
             code \<in> codes_pdf1 \<or> code \<in> ci_corrected ` set ci1
             \<or> (\<exists>c\<in>set ac. correction_type c = ''Korrekturmatch'' \<and> corrected c = code
                    \<and> 0.6 \<le> probability c)"
    unfolding compare_sets_pdf1 using g by (simp add: gate_invariant_def)
  have c: "only_in_pdf2 (compare_sets cc codes_pdf2) \<subseteq> codes_pdf2"
    by (rule compare_sets_pdf2)
  show ?thesis
    unfolding r using a b c by simp
qed



subsection \<open>Two comparisons, evaluated\<close>

lemma example_sequences:
  "validated_sequence remdups {''E12'', ''A1X''} [(''F12'', 1, 0), (''A1X'', 1, 1)] = [''A1X'']"
  "validated_sequence remdups {''E12'', ''A1X''} [(''E12'', 1, 0), (''A1X'', 1, 1)]
     = [''E12'', ''A1X'']"
  by code_simp+

lemma example_combinations:
  "whitespace_combinations {''E12'', ''A1X''} [''F12'', ''A1X''] [(''F12'', 1, 0), (''A1X'', 1, 1)]
     = []"
  by code_simp

lemma example_baseline:
  "compare_sets {''A1X''} {''E12'', ''A1X''}
   = \<lparr>in_both = {''A1X''}, only_in_pdf1 = {}, only_in_pdf2 = {''E12''},
       normal_sets = \<lparr>in_both = {''A1X''}, only_in_pdf1 = {}, only_in_pdf2 = {''E12''}\<rparr>,
       control_sets = \<lparr>in_both = {}, only_in_pdf1 = {}, only_in_pdf2 = {}\<rparr>\<rparr>"
  by code_simp

lemma example_target:
  "corrections_for_target remdups {''E12'', ''A1X''} [''A1X''] [''E12'', ''A1X'']
     [(''F12'', 1, 0), (''A1X'', 1, 1)] ''E12'' ([], {''A1X''})
   = ([\<lparr>original = ''F12'', corrected = ''E12'', probability = 7 / 10,
         correction_type = ''Korrekturmatch''\<rparr>], {''E12'', ''A1X''})"
  by code_simp

lemma example_direct:
  "direct_matches [''A1X''] [''E12'', ''A1X''] [] [''A1X'']
     [\<lparr>original = ''F12'', corrected = ''E12'', probability = 7 / 10,
        correction_type = ''Korrekturmatch''\<rparr>]
   = [\<lparr>original = ''F12'', corrected = ''E12'', probability = 7 / 10,
        correction_type = ''Korrekturmatch''\<rparr>,
      \<lparr>original = ''A1X'', corrected = ''A1X'', probability = 4 / 5,
        correction_type = ''Direkter Match''\<rparr>]"
  by code_simp

lemma example_corrected_in_both:
  "in_both (compare_sets {''E12'', ''A1X''} {''E12'', ''A1X''}) = {''E12'', ''A1X''}"
  by code_simp

lemma example_passes:
  "corrected_codes_and_corrections remdups sorted_list_of_set {''A1X''} {''E12'', ''A1X''}
      [(''F12'', 1, 0), (''A1X'', 1, 1)] [(''E12'', 1, 0), (''A1X'', 1, 1)] {''E12'', ''A1X''}
      [''F12'', ''A1X''] [] []
   = ([\<lparr>original = ''F12'', corrected = ''E12'', probability = 7 / 10,
         correction_type = ''Korrekturmatch''\<rparr>,
       \<lparr>original = ''A1X'', corrected = ''A1X'', probability = 4 / 5,
         correction_type = ''Direkter Match''\<rparr>], {''E12'', ''A1X''})"
  unfolding corrected_codes_and_corrections_def example_sequences example_combinations
    example_baseline
  by (simp add: Let_def extended_corrections_pdf1_def extended_corrections_pdf2_def
      whitespace_corrections_def substitution_corrections_def example_target example_direct)

lemma resolver_example_validate:
  "\<exists>info. validate_raw_codes remdups {''BBB''} [''888''] = ({''BBB''}, [info])
      \<and> ci_original info = ''888'' \<and> ci_corrected info = ''BBB'' \<and> ci_corrections_count info = 1"
proof -
  have "validate_raw_codes remdups {''BBB''} [''888'']
   = ({''BBB''},
      [\<lparr>ci_original = ''888'', ci_corrected = ''BBB'', ci_page = 1, ci_position = 0,
        ci_corrections_applied =
          [[CHR ''8''] @ arrow @ [CHR ''B''] @ '', '' @ [CHR ''8''] @ arrow @ [CHR ''B'']
           @ '', '' @ [CHR ''8''] @ arrow @ [CHR ''B'']],
        ci_corrections_count = 1\<rparr>])"
    by code_simp
  then show ?thesis by simp
qed

lemma resolver_example_validate2:
  "validate_raw_codes remdups {''BBB''} [''BBB''] = ({''BBB''}, [])"
  by code_simp

lemma resolver_example_sequences:
  "validated_sequence remdups {''BBB''} [(''888'', 1, 0)] = [''BBB'']"
  "validated_sequence remdups {''BBB''} [(''BBB'', 1, 0)] = [''BBB'']"
  by code_simp+

lemma resolver_example_combinations:
  "whitespace_combinations {''BBB''} [''888''] [(''888'', 1, 0)] = []"
  by code_simp

lemma resolver_example_in_both: "in_both (compare_sets {''BBB''} {''BBB''}) = {''BBB''}"
  by code_simp

lemma resolver_example_only_in_pdf2: "only_in_pdf2 (compare_sets {''BBB''} {''BBB''}) = {}"
  by code_simp

lemma resolver_example_probability:
  "calculate_precise_probability ''BBB'' (count_corrections_needed ''888'' ''BBB'') 0
     (get_validated_context_codes [''BBB''] ''BBB'' 3)
     (get_validated_context_codes [''BBB''] ''BBB'' 3) True
   = (1 / 2, \<lparr>before_matches = 0, after_matches = 0, before_total = 0, after_total = 0\<rparr>)"
  by code_simp

lemma resolver_example_passes:
  assumes "ci_original info = ''888''" and "ci_corrected info = ''BBB''"
    and "ci_corrections_count info = 1"
  shows "corrected_codes_and_corrections remdups sorted_list_of_set {''BBB''} {''BBB''}
      [(''888'', 1, 0)] [(''BBB'', 1, 0)] {''BBB''} [''888''] [info] []
   = ([\<lparr>original = ''888'', corrected = ''BBB'', probability = 1 / 2,
         correction_type = ''Erweiterte OCR-Korrektur''\<rparr>], {''BBB''})"
  unfolding corrected_codes_and_corrections_def resolver_example_sequences
    resolver_example_combinations
  by (simp add: Let_def assms extended_corrections_pdf1_def resolver_example_probability
      extended_corrections_pdf2_def whitespace_corrections_def substitution_corrections_def
      resolver_example_only_in_pdf2 resolver_example_in_both direct_matches_def)

theorem admission_gate_witness:
  "\<lparr>original = ''F12'', corrected = ''E12'', probability = 7 / 10,
     correction_type = ''Korrekturmatch''\<rparr>
     \<in> set (corrections (compare_codes_with_correction remdups sorted_list_of_set {''A1X''}
               {''E12'', ''A1X''} [(''F12'', 1, 0), (''A1X'', 1, 1)]
               [(''E12'', 1, 0), (''A1X'', 1, 1)] {''E12'', ''A1X''} [''F12'', ''A1X''] [] []))
   \<and> (0.6 :: rat) \<le> 7 / 10
   \<and> in_both (corrected_sets (compare_codes_with_correction remdups sorted_list_of_set {''A1X''}
               {''E12'', ''A1X''} [(''F12'', 1, 0), (''A1X'', 1, 1)]
               [(''E12'', 1, 0), (''A1X'', 1, 1)] {''E12'', ''A1X''} [''F12'', ''A1X''] [] []))
       = {''E12'', ''A1X''}"
proof -
  let ?r = "compare_codes_with_correction remdups sorted_list_of_set {''A1X''}
               {''E12'', ''A1X''} [(''F12'', 1, 0), (''A1X'', 1, 1)]
               [(''E12'', 1, 0), (''A1X'', 1, 1)] {''E12'', ''A1X''} [''F12'', ''A1X''] [] []"
  let ?c = "\<lparr>original = ''F12'', corrected = ''E12'', probability = 7 / 10,
              correction_type = ''Korrekturmatch''\<rparr>"
  have m: "?c \<in> set (corrections ?r)"
    by (simp add: compare_codes_with_correction_def example_passes)
  have s: "in_both (corrected_sets ?r) = {''E12'', ''A1X''}"
    by (simp add: compare_codes_with_correction_def example_passes example_corrected_in_both)
  have "correction_type ?c = ''Korrekturmatch'' \<longrightarrow> 0.6 \<le> probability ?c"
    using admission_gate [of remdups sorted_list_of_set "{''A1X''}" "{''E12'', ''A1X''}"
        "[(''F12'', 1, 0), (''A1X'', 1, 1)]" "[(''E12'', 1, 0), (''A1X'', 1, 1)]"
        "{''E12'', ''A1X''}" "[''F12'', ''A1X'']" "[]" "[]"] m
    by blast
  then have "(0.6 :: rat) \<le> 7 / 10" by simp
  then show ?thesis using m s by blast
qed

theorem corrected_pdf1_superset_witness:
  "{''A1X''} \<subseteq> {''E12'', ''A1X''}
   \<and> in_both (corrected_sets (compare_codes_with_correction remdups sorted_list_of_set {''A1X''}
               {''E12'', ''A1X''} [(''F12'', 1, 0), (''A1X'', 1, 1)]
               [(''E12'', 1, 0), (''A1X'', 1, 1)] {''E12'', ''A1X''} [''F12'', ''A1X''] [] []))
     \<union> only_in_pdf1 (corrected_sets (compare_codes_with_correction remdups sorted_list_of_set
               {''A1X''} {''E12'', ''A1X''} [(''F12'', 1, 0), (''A1X'', 1, 1)]
               [(''E12'', 1, 0), (''A1X'', 1, 1)] {''E12'', ''A1X''} [''F12'', ''A1X''] [] []))
     = {''E12'', ''A1X''}"
proof -
  let ?r = "compare_codes_with_correction remdups sorted_list_of_set {''A1X''}
               {''E12'', ''A1X''} [(''F12'', 1, 0), (''A1X'', 1, 1)]
               [(''E12'', 1, 0), (''A1X'', 1, 1)] {''E12'', ''A1X''} [''F12'', ''A1X''] [] []"
  have u: "in_both (corrected_sets ?r) \<union> only_in_pdf1 (corrected_sets ?r) = {''E12'', ''A1X''}"
    by (simp add: compare_codes_with_correction_def example_passes compare_sets_pdf1)
  have "{''A1X''} \<subseteq> in_both (corrected_sets ?r) \<union> only_in_pdf1 (corrected_sets ?r)"
    by (rule corrected_pdf1_superset)
  then show ?thesis using u by simp
qed

text \<open>
  C1 (as stated) fails. With the vocabulary BBB, the candidate 888 of document 1 and the
  candidate BBB of document 2, the resolver-sourced correction 888 to BBB needs three
  substitutions and has no context, so its probability is 0.80 - 0.30 = 0.50; it is still in
  the correction list and its code is in the corrected \<open>in_both\<close> set.
\<close>

theorem gate_skipped_for_resolver_corrections:
  "\<lparr>original = ''888'', corrected = ''BBB'', probability = 1 / 2,
     correction_type = ''Erweiterte OCR-Korrektur''\<rparr>
     \<in> set (corrections (run_comparison remdups sorted_list_of_set {''BBB''}
                            [(''888'', 1, 0)] [''888''] [(''BBB'', 1, 0)]))
   \<and> ''BBB'' \<in> in_both (corrected_sets (run_comparison remdups sorted_list_of_set {''BBB''}
                                            [(''888'', 1, 0)] [''888''] [(''BBB'', 1, 0)]))
   \<and> (1 / 2 :: rat) < 0.6"
proof -
  obtain info where v: "validate_raw_codes remdups {''BBB''} [''888''] = ({''BBB''}, [info])"
    and i: "ci_original info = ''888''" "ci_corrected info = ''BBB''"
      "ci_corrections_count info = 1"
    using resolver_example_validate by blast
  have r: "run_comparison remdups sorted_list_of_set {''BBB''}
             [(''888'', 1, 0)] [''888''] [(''BBB'', 1, 0)]
           = \<lparr>original_sets = compare_sets {''BBB''} {''BBB''},
              corrected_sets = compare_sets {''BBB''} {''BBB''},
              corrections = [\<lparr>original = ''888'', corrected = ''BBB'', probability = 1 / 2,
                               correction_type = ''Erweiterte OCR-Korrektur''\<rparr>]\<rparr>"
    by (simp add: run_comparison_def compare_codes_with_correction_def v
        resolver_example_validate2 resolver_example_passes [OF i])
  show ?thesis
    unfolding r by (simp add: resolver_example_in_both)
qed


subsection \<open>The empty vocabulary\<close>

lemma search_variants_empty:
  "search_variants so {} current_code found_match applied = (found_match, applied)"
  by (simp add: search_variants_def find_None_iff [THEN iffD2])

lemma validate_raw_code_empty:
  "validate_raw_code so {} n i code validated infos = (validated, infos)"
  by (simp add: validate_raw_code_def Let_def search_variants_empty truthy_def)

lemma validate_raw_codes_empty: "validate_raw_codes so {} raw_codes = ({}, [])"
  unfolding validate_raw_codes_def
  by (rule fold_invariant [where P = "\<lambda>s. s = ({}, [])"])
     (auto simp: validate_raw_code_empty)

lemma check_combo_empty: "check_combo so {} codes2 av1 av2 combo s = s"
  by (cases s) (simp add: check_combo_def Let_def)

lemma whitespace_corrections_empty: "whitespace_corrections so {} codes2 av1 av2 combos s = s"
  unfolding whitespace_corrections_def
  by (rule fold_invariant [where P = "\<lambda>t. t = s"]) (auto simp: check_combo_empty)

lemma compare_sets_empty:
  "compare_sets {} {}
   = \<lparr>in_both = {}, only_in_pdf1 = {}, only_in_pdf2 = {},
       normal_sets = \<lparr>in_both = {}, only_in_pdf1 = {}, only_in_pdf2 = {}\<rparr>,
       control_sets = \<lparr>in_both = {}, only_in_pdf1 = {}, only_in_pdf2 = {}\<rparr>\<rparr>"
  by (simp add: compare_sets_def categorize_codes_by_type_def)

lemma valid_set_iter_empty: "valid_set_iter it \<Longrightarrow> it {} = []"
  unfolding valid_set_iter_def by (metis finite.emptyI set_empty)

lemma valid_set_iter_sorted_list_of_set: "valid_set_iter sorted_list_of_set"
  by (simp add: valid_set_iter_def)

lemma run_comparison_empty:
  assumes "valid_set_iter it"
  shows "run_comparison so it {} raw1 lines1 raw2
   = \<lparr>original_sets =
        \<lparr>in_both = {}, only_in_pdf1 = {}, only_in_pdf2 = {},
          normal_sets = \<lparr>in_both = {}, only_in_pdf1 = {}, only_in_pdf2 = {}\<rparr>,
          control_sets = \<lparr>in_both = {}, only_in_pdf1 = {}, only_in_pdf2 = {}\<rparr>\<rparr>,
      corrected_sets =
        \<lparr>in_both = {}, only_in_pdf1 = {}, only_in_pdf2 = {},
          normal_sets = \<lparr>in_both = {}, only_in_pdf1 = {}, only_in_pdf2 = {}\<rparr>,
          control_sets = \<lparr>in_both = {}, only_in_pdf1 = {}, only_in_pdf2 = {}\<rparr>\<rparr>,
      corrections = []\<rparr>"
proof -
  have e: "it {} = []" using assms by (rule valid_set_iter_empty)
  have p: "corrected_codes_and_corrections so it {} {} raw1 raw2 {} lines1 [] [] = ([], {})"
    by (simp add: corrected_codes_and_corrections_def Let_def compare_sets_empty e
        extended_corrections_pdf1_def extended_corrections_pdf2_def whitespace_corrections_empty
        substitution_corrections_def direct_matches_def)
  show ?thesis
    by (simp add: run_comparison_def validate_raw_codes_empty compare_codes_with_correction_def p
        compare_sets_empty)
qed

text \<open>
  C8 (as amended). With an empty vocabulary no candidate is validated and no correction is
  recorded, and the comparison returns (it is a total function: nothing raises) a result
  whose membership sets, original and corrected, are all empty and whose list of
  corrections and matches is empty. The unmatched candidates are not reported as
  document-exclusive, and no confidence is computed for them.
\<close>

theorem empty_vocabulary:
  assumes "valid_set_iter it"
  shows "validate_raw_codes so {} (map fst raw1) = ({}, [])
   \<and> validate_raw_codes so {} (map fst raw2) = ({}, [])
   \<and> run_comparison so it {} raw1 lines1 raw2
     = \<lparr>original_sets =
          \<lparr>in_both = {}, only_in_pdf1 = {}, only_in_pdf2 = {},
            normal_sets = \<lparr>in_both = {}, only_in_pdf1 = {}, only_in_pdf2 = {}\<rparr>,
            control_sets = \<lparr>in_both = {}, only_in_pdf1 = {}, only_in_pdf2 = {}\<rparr>\<rparr>,
        corrected_sets =
          \<lparr>in_both = {}, only_in_pdf1 = {}, only_in_pdf2 = {},
            normal_sets = \<lparr>in_both = {}, only_in_pdf1 = {}, only_in_pdf2 = {}\<rparr>,
            control_sets = \<lparr>in_both = {}, only_in_pdf1 = {}, only_in_pdf2 = {}\<rparr>\<rparr>,
        corrections = []\<rparr>"
  using run_comparison_empty [OF assms] by (simp add: validate_raw_codes_empty)

theorem empty_vocabulary_witness:
  "valid_set_iter sorted_list_of_set
   \<and> validate_raw_codes remdups {} (map fst [(''A1X'', 1, 0)]) = ({}, [])
   \<and> corrections (run_comparison remdups sorted_list_of_set {} [(''A1X'', 1, 0)] [''A1X'']
                     [(''B2Y'', 1, 0)]) = []
   \<and> in_both (corrected_sets (run_comparison remdups sorted_list_of_set {} [(''A1X'', 1, 0)]
                                 [''A1X''] [(''B2Y'', 1, 0)])) = {}"
  using empty_vocabulary [OF valid_set_iter_sorted_list_of_set, of remdups "[(''A1X'', 1, 0)]"
      "[(''B2Y'', 1, 0)]" "[''A1X'']"] valid_set_iter_sorted_list_of_set
  by simp

text \<open>
  C8 (as stated) fails: with an empty vocabulary the candidate A1X of document 1 and the
  candidate B2Y of document 2 are in neither document-exclusive set, and no entry with a
  confidence is produced for them.
\<close>

theorem unmatched_candidates_not_reported:
  "normalize ''A1X'' = ''A1X'' \<and> normalize ''B2Y'' = ''B2Y''
   \<and> ''A1X'' \<notin> only_in_pdf1 (corrected_sets (run_comparison remdups sorted_list_of_set {}
                                   [(''A1X'', 1, 0)] [''A1X''] [(''B2Y'', 1, 0)]))
   \<and> ''B2Y'' \<notin> only_in_pdf2 (corrected_sets (run_comparison remdups sorted_list_of_set {}
                                   [(''A1X'', 1, 0)] [''A1X''] [(''B2Y'', 1, 0)]))
   \<and> corrections (run_comparison remdups sorted_list_of_set {} [(''A1X'', 1, 0)] [''A1X'']
                     [(''B2Y'', 1, 0)]) = []"
proof -
  have n: "normalize ''A1X'' = ''A1X''" "normalize ''B2Y'' = ''B2Y''"
    by (simp_all add: normalize_def py_strip_def py_upper_def strip_trailing_punct_def
        upper_char_def py_isspace_def is_trailing_punct_def)
  show ?thesis
    using n by (simp add: run_comparison_empty [OF valid_set_iter_sorted_list_of_set])
qed

end
